theory Spec2Isabelle
  imports Complex_Main "HOL-Library.Log_Nat"
begin

section \<open>Strings\<close>

text \<open>
  A JavaScript string is a sequence of UTF-16 code units. A code unit is modelled by its
  numeric value, so \<open>[\<close> is 91, the backslash is 92 and the Greek letter mu (U+03BC) is 956.
  \<open>js\<close> turns an Isabelle string literal (ASCII) into such a sequence.
\<close>

type_synonym jsstring = "nat list"

definition js :: "string \<Rightarrow> jsstring" where
  "js s = map of_char s"

text \<open>The backslash, which cannot be written inside an Isabelle string literal.\<close>

definition bsl :: jsstring where
  "bsl = [92]"

text \<open>
  The characters matched by \<^verbatim>\<open>\s\<close> in a regular expression and removed by
  \<^verbatim>\<open>String.prototype.trim\<close>: ECMAScript's WhiteSpace and LineTerminator
  (TAB, LF, VT, FF, CR, SP, NBSP, U+1680, U+2000..U+200A, U+2028, U+2029, U+202F, U+205F,
  U+3000, U+FEFF).
\<close>

definition isWhiteSpace :: "nat \<Rightarrow> bool" where
  "isWhiteSpace c \<longleftrightarrow>
     c = 9 \<or> c = 10 \<or> c = 11 \<or> c = 12 \<or> c = 13 \<or> c = 32 \<or> c = 160 \<or> c = 5760 \<or>
     (8192 \<le> c \<and> c \<le> 8202) \<or> c = 8232 \<or> c = 8233 \<or> c = 8239 \<or> c = 8287 \<or>
     c = 12288 \<or> c = 65279"

text \<open>The class \<^verbatim>\<open>[A-Za-z0-9]\<close>.\<close>

definition isAlnum :: "nat \<Rightarrow> bool" where
  "isAlnum c \<longleftrightarrow> (65 \<le> c \<and> c \<le> 90) \<or> (97 \<le> c \<and> c \<le> 122) \<or> (48 \<le> c \<and> c \<le> 57)"

definition startsWith :: "jsstring \<Rightarrow> jsstring \<Rightarrow> bool" where
  "startsWith s pat \<longleftrightarrow> take (length pat) s = pat"

definition trim :: "jsstring \<Rightarrow> jsstring" where
  "trim s = rev (dropWhile isWhiteSpace (rev (dropWhile isWhiteSpace s)))"

text \<open>
  \<^verbatim>\<open>text.indexOf(c)\<close> and \<^verbatim>\<open>text.lastIndexOf(c)\<close> for a one-character search
  string: the position of the first (last) occurrence, or -1.
\<close>

fun indexOf :: "jsstring \<Rightarrow> nat \<Rightarrow> int" where
  "indexOf [] c = - 1"
| "indexOf (x # xs) c =
     (if x = c then 0 else (let i = indexOf xs c in if i = - 1 then - 1 else i + 1))"

definition lastIndexOf :: "jsstring \<Rightarrow> nat \<Rightarrow> int" where
  "lastIndexOf s c =
     (let i = indexOf (rev s) c in if i = - 1 then - 1 else int (length s) - 1 - i)"

text \<open>
  \<^verbatim>\<open>text.substring(a, b)\<close>: both indices are clamped into \<open>[0, length]\<close> and swapped
  when the first is the larger one.
\<close>

definition substring :: "jsstring \<Rightarrow> int \<Rightarrow> int \<Rightarrow> jsstring" where
  "substring s a b =
     (let n = int (length s);
          a' = min (max a 0) n;
          b' = min (max b 0) n;
          lo = min a' b';
          hi = max a' b'
      in take (nat (hi - lo)) (drop (nat lo) s))"

section \<open>Regular-expression replacements\<close>

text \<open>
  The source rewrites text only through \<^verbatim>\<open>String.prototype.replace\<close> with a
  global regular expression. Each shape of expression it uses is one scanning function:
  the scan goes left to right, a match is replaced and the scan resumes behind it, a
  position without a match is copied and the scan moves one code unit on.
\<close>

text \<open>\<^verbatim>\<open>t.replace(/pat/g, rep)\<close> for a literal, non-empty \<open>pat\<close>.\<close>

fun replaceAll :: "jsstring \<Rightarrow> jsstring \<Rightarrow> jsstring \<Rightarrow> jsstring" where
  "replaceAll pat rep [] = []"
| "replaceAll pat rep (c # cs) =
     (if pat \<noteq> [] \<and> startsWith (c # cs) pat
      then rep @ replaceAll pat rep (drop (length pat - 1) cs)
      else c # replaceAll pat rep cs)"

text \<open>
  \<^verbatim>\<open>t.replace(/pre([^}]*)\}/g, rep + "$1")\<close> for a literal, non-empty \<open>pre\<close>:
  the group takes every code unit up to the next \<open>}\<close> (125); without a later \<open>}\<close>
  there is no match at this position.
\<close>

function unbrace :: "jsstring \<Rightarrow> jsstring \<Rightarrow> jsstring \<Rightarrow> jsstring" where
  "unbrace pre rep [] = []"
| "unbrace pre rep (c # cs) =
     (let body = drop (length pre - 1) cs in
      if pre \<noteq> [] \<and> startsWith (c # cs) pre \<and> 125 \<in> set body
      then rep @ takeWhile (\<lambda>x. x \<noteq> 125) body
             @ unbrace pre rep (drop 1 (dropWhile (\<lambda>x. x \<noteq> 125) body))
      else c # unbrace pre rep cs)"
  by pat_completeness auto
termination
proof (relation "measure (\<lambda>(pre, rep, t). length t)")
  fix pre rep :: jsstring and c :: nat and cs body :: jsstring
  assume "body = drop (length pre - 1) cs"
  have "length (dropWhile (\<lambda>x. x \<noteq> 125) body) \<le> length body"
    by (rule length_dropWhile_le)
  also have "length body \<le> length cs"
    using \<open>body = drop (length pre - 1) cs\<close> by simp
  finally show "((pre, rep, drop 1 (dropWhile (\<lambda>x. x \<noteq> 125) body)), (pre, rep, c # cs))
      \<in> measure (\<lambda>(pre, rep, t). length t)"
    by simp
qed simp_all

text \<open>
  \<^verbatim>\<open>t.replace(/m([A-Za-z0-9])/g, "m$1")\<close> for one code unit \<open>m\<close> (the caret or the
  underscore): the replacement writes back what was matched.
\<close>

fun keepScript :: "nat \<Rightarrow> jsstring \<Rightarrow> jsstring" where
  "keepScript m (c # d # cs) =
     (if c = m \<and> isAlnum d then [m] @ [d] @ keepScript m cs else c # keepScript m (d # cs))"
| "keepScript m cs = cs"

text \<open>\<^verbatim>\<open>t.replace(/\s+/g, " ")\<close>.\<close>

function collapseSpaces :: "jsstring \<Rightarrow> jsstring" where
  "collapseSpaces [] = []"
| "collapseSpaces (c # cs) =
     (if isWhiteSpace c then 32 # collapseSpaces (dropWhile isWhiteSpace cs)
      else c # collapseSpaces cs)"
  by pat_completeness auto
termination
  by (relation "measure length") (auto simp: length_dropWhile_le less_Suc_eq_le)

text \<open>
  \<^verbatim>\<open>t.replace(/(\s|^)pat/g, "$1" + rep)\<close> for a literal, non-empty \<open>pat\<close>. The flag
  says whether the scan is at the start of the string, the only place where \<open>^\<close>
  matches. The alternative \<^verbatim>\<open>\s\<close> is tried first.
\<close>

fun restoreCmd :: "bool \<Rightarrow> jsstring \<Rightarrow> jsstring \<Rightarrow> jsstring \<Rightarrow> jsstring" where
  "restoreCmd at0 pat rep [] = []"
| "restoreCmd at0 pat rep (c # cs) =
     (if isWhiteSpace c \<and> startsWith cs pat
      then [c] @ rep @ restoreCmd False pat rep (drop (length pat) cs)
      else if at0 \<and> pat \<noteq> [] \<and> startsWith (c # cs) pat
      then rep @ restoreCmd False pat rep (drop (length pat - 1) cs)
      else c # restoreCmd False pat rep cs)"

text \<open>
  \<^verbatim>\<open>t.replace(/(\s|^)pat(\s|$)/g, "$1" + rep + "$2")\<close> for a literal, non-empty
  \<open>pat\<close>. The second group takes one white-space code unit, or nothing at the end of the
  string; the code unit it takes belongs to the match, so the scan resumes behind it.
\<close>

definition wordEnd :: "jsstring \<Rightarrow> bool" where
  "wordEnd r \<longleftrightarrow> (case r of [] \<Rightarrow> True | d # _ \<Rightarrow> isWhiteSpace d)"

fun restoreWord :: "bool \<Rightarrow> jsstring \<Rightarrow> jsstring \<Rightarrow> jsstring \<Rightarrow> jsstring" where
  "restoreWord at0 pat rep [] = []"
| "restoreWord at0 pat rep (c # cs) =
     (if isWhiteSpace c \<and> startsWith cs pat \<and> wordEnd (drop (length pat) cs)
      then [c] @ rep @ take 1 (drop (length pat) cs)
             @ restoreWord False pat rep (drop (Suc (length pat)) cs)
      else if at0 \<and> pat \<noteq> [] \<and> startsWith (c # cs) pat \<and> wordEnd (drop (length pat - 1) cs)
      then rep @ take 1 (drop (length pat - 1) cs)
             @ restoreWord False pat rep (drop (length pat) cs)
      else c # restoreWord False pat rep cs)"

text \<open>
  \<^verbatim>\<open>t.replace(/\$([^\$]+)\$/g, (match, content) => `$${content}$`)\<close>: a \<open>$\<close> (36), one
  or more other code units, and the next \<open>$\<close>; the callback rebuilds the match.
\<close>

function mathSegments :: "jsstring \<Rightarrow> jsstring" where
  "mathSegments [] = []"
| "mathSegments (c # cs) =
     (let content = takeWhile (\<lambda>x. x \<noteq> 36) cs;
          rest = dropWhile (\<lambda>x. x \<noteq> 36) cs
      in if c = 36 \<and> content \<noteq> [] \<and> rest \<noteq> []
         then [36] @ content @ [36] @ mathSegments (drop 1 rest)
         else c # mathSegments cs)"
  by pat_completeness auto
termination
proof (relation "measure length")
  fix c :: nat and cs content rest :: jsstring
  assume "rest = dropWhile (\<lambda>x. x \<noteq> 36) cs"
  then have "length rest \<le> length cs"
    by (simp add: length_dropWhile_le)
  then show "(drop 1 rest, c # cs) \<in> measure length"
    by simp
qed simp_all

section \<open>Markup repair and markup simplifier\<close>

definition repairMalformedLatex :: "jsstring \<Rightarrow> jsstring" where
  "repairMalformedLatex text =
     (if text = [] then []
      else
        let t = restoreCmd True (js ''ext{'') (bsl @ js ''text{'') text;
            t = restoreCmd True (js ''frac{'') (bsl @ js ''frac{'') t;
            t = restoreCmd True (js ''sqrt{'') (bsl @ js ''sqrt{'') t;
            t = restoreWord True (js ''times'') (bsl @ js ''times'') t;
            t = restoreWord True (js ''mu'') (bsl @ js ''mu'') t;
            t = restoreWord True (js ''pi'') (bsl @ js ''pi'') t;
            t = restoreWord True (js ''theta'') (bsl @ js ''theta'') t;
            t = mathSegments t
        in t)"

definition latexToSimple :: "jsstring \<Rightarrow> jsstring" where
  "latexToSimple text =
     (if text = [] then []
      else
        let t = text;
            t = replaceAll (js ''$'') [] t;
            t = unbrace (bsl @ js ''text{'') [] t;
            t = unbrace (bsl @ js ''mathrm{'') [] t;
            t = unbrace (js ''^{'') (js ''^'') t;
            t = unbrace (js ''_{'') (js ''_'') t;
            t = keepScript 94 t;
            t = keepScript 95 t;
            t = replaceAll (bsl @ js '','') (js '' '') t;
            t = replaceAll (bsl @ js '';'') (js '' '') t;
            t = replaceAll (bsl @ js '':'') (js '' '') t;
            t = replaceAll (bsl @ js ''times'') [215] t;
            t = replaceAll (bsl @ js ''mu'') [956] t;
            t = replaceAll (bsl @ js ''circ'') [176] t;
            t = replaceAll (bsl @ js ''pi'') [960] t;
            t = replaceAll (bsl @ js ''theta'') [952] t;
            t = replaceAll (bsl @ js ''Delta'') [916] t;
            t = replaceAll (bsl @ js ''Omega'') [937] t
        in trim (collapseSpaces t))"

section \<open>Numbers\<close>

text \<open>
  A JavaScript number is an IEEE 754 binary64 value. The values that reach this program
  come from \<^verbatim>\<open>JSON.parse\<close>, \<^verbatim>\<open>parseInt\<close> and array lengths: a finite value is
  modelled by the rational it denotes, and the two infinities are kept. There is one
  zero: the sign of a zero is observed by no operation of the program. \<^verbatim>\<open>NaN\<close> is
  produced by \<^verbatim>\<open>parseInt\<close> only and is the value \<open>None\<close> there.
\<close>

datatype jsnum = Fin rat | PosInf | NegInf

definition pow2 :: "int \<Rightarrow> rat" where
  "pow2 e = (if 0 \<le> e then 2 ^ nat e else 1 / 2 ^ nat (- e))"

definition pow10 :: "int \<Rightarrow> rat" where
  "pow10 e = (if 0 \<le> e then 10 ^ nat e else 1 / 10 ^ nat (- e))"

text \<open>The integer \<open>k\<close> with \<open>2 ^ k \<le> a < 2 ^ (k + 1)\<close>, for a positive \<open>a\<close>.\<close>

definition ilog2 :: "rat \<Rightarrow> int" where
  "ilog2 a =
     (if 1 \<le> a then int (floorlog 2 (nat \<lfloor>a\<rfloor>)) - 1
      else - int (floorlog 2 (nat (\<lceil>1 / a\<rceil> - 1))))"

definition roundHalfEven :: "rat \<Rightarrow> int" where
  "roundHalfEven x =
     (let f = \<lfloor>x\<rfloor>; d = x - of_int f
      in if d < 1 / 2 then f else if 1 / 2 < d then f + 1 else if even f then f else f + 1)"

text \<open>
  ``The Number value for \<open>x\<close>'' of ECMAScript: \<open>x\<close> rounded to the nearest binary64
  value, ties to the even significand. The significand has 53 bits, the least exponent
  of a unit in the last place is -1074, and a rounded magnitude of \<open>2 ^ 1024\<close> or more
  is an infinity.
\<close>

definition toNumber :: "rat \<Rightarrow> jsnum" where
  "toNumber x =
     (if x = 0 then Fin 0
      else
        let a = \<bar>x\<bar>;
            e = max (ilog2 a - 52) (- 1074);
            m = roundHalfEven (a / pow2 e);
            v = of_int m * pow2 e
        in if 2 ^ 1024 \<le> v then (if x < 0 then NegInf else PosInf)
           else Fin (if x < 0 then - v else v))"

definition isDigit :: "nat \<Rightarrow> bool" where
  "isDigit c \<longleftrightarrow> 48 \<le> c \<and> c \<le> 57"

definition digitsVal :: "jsstring \<Rightarrow> nat" where
  "digitsVal ds = foldl (\<lambda>a d. 10 * a + (d - 48)) 0 ds"

section \<open>JSON values and JSON.parse\<close>

datatype json =
    JNull
  | JBool bool
  | JNum jsnum
  | JStr jsstring
  | JArr "json list"
  | JObj "(jsstring \<times> json) list"

datatype error = SyntaxError | TypeError

text \<open>
  The result of a parsing function: a value and the rest of the input, a syntax error, or
  the exhaustion of the recursion budget.
\<close>

datatype 'a parsed = Parsed 'a jsstring | Invalid | NoFuel

text \<open>JSON white space: TAB, LF, CR and SP only.\<close>

definition isJsonWs :: "nat \<Rightarrow> bool" where
  "isJsonWs c \<longleftrightarrow> c = 9 \<or> c = 10 \<or> c = 13 \<or> c = 32"

definition skipWs :: "jsstring \<Rightarrow> jsstring" where
  "skipWs s = dropWhile isJsonWs s"

definition hexDigit :: "nat \<Rightarrow> nat option" where
  "hexDigit c =
     (if 48 \<le> c \<and> c \<le> 57 then Some (c - 48)
      else if 97 \<le> c \<and> c \<le> 102 then Some (c - 87)
      else if 65 \<le> c \<and> c \<le> 70 then Some (c - 55)
      else None)"

definition hex4 :: "jsstring \<Rightarrow> nat option" where
  "hex4 s =
     (case map hexDigit (take 4 s) of
        [Some a, Some b, Some c, Some d] \<Rightarrow> Some (((a * 16 + b) * 16 + c) * 16 + d)
      | _ \<Rightarrow> None)"

text \<open>
  The characters of a JSON string up to the closing quote (34). A backslash (92) starts
  one of the escapes \<^verbatim>\<open>\" \\ \/ \b \f \n \r \t \uXXXX\<close>; a control character below
  U+0020 is not allowed unescaped.
\<close>

fun parseChars :: "jsstring \<Rightarrow> (jsstring \<times> jsstring) option" where
  "parseChars [] = None"
| "parseChars [c] = (if c = 34 then Some ([], []) else None)"
| "parseChars (c # e # r) =
     (if c = 34 then Some ([], e # r)
      else if c = 92 then
        (if e = 117 then
           (case hex4 r of
              None \<Rightarrow> None
            | Some u \<Rightarrow> map_option (\<lambda>(str, rest). (u # str, rest)) (parseChars (drop 4 r)))
         else
           (case (if e = 34 then Some 34 else if e = 92 then Some 92 else if e = 47 then Some 47
                  else if e = 98 then Some 8 else if e = 102 then Some 12
                  else if e = 110 then Some 10 else if e = 114 then Some 13
                  else if e = 116 then Some 9 else None) of
              None \<Rightarrow> None
            | Some u \<Rightarrow> map_option (\<lambda>(str, rest). (u # str, rest)) (parseChars r)))
      else if c < 32 then None
      else map_option (\<lambda>(str, rest). (c # str, rest)) (parseChars (e # r)))"

text \<open>
  A JSON number: \<^verbatim>\<open>-? (0 | [1-9][0-9]*) (. [0-9]+)? ([eE] [+-]? [0-9]+)?\<close>. Its value
  is the Number value for the decimal it denotes.
\<close>

definition parseNumber :: "jsstring \<Rightarrow> (jsnum \<times> jsstring) option" where
  "parseNumber s =
     (let neg = startsWith s (js ''-'');
          s1 = (if neg then drop 1 s else s);
          ds = (if startsWith s1 (js ''0'') then js ''0'' else takeWhile isDigit s1);
          s2 = drop (length ds) s1;
          hasFrac = startsWith s2 (js ''.'');
          fs = (if hasFrac then takeWhile isDigit (drop 1 s2) else []);
          s3 = (if hasFrac then drop (Suc (length fs)) s2 else s2);
          hasExp = (startsWith s3 (js ''e'') \<or> startsWith s3 (js ''E''));
          s4 = (if hasExp then drop 1 s3 else s3);
          eneg = (hasExp \<and> startsWith s4 (js ''-''));
          s5 = (if hasExp \<and> (startsWith s4 (js ''-'') \<or> startsWith s4 (js ''+''))
                then drop 1 s4 else s4);
          es = (if hasExp then takeWhile isDigit s5 else []);
          s6 = drop (length es) s5;
          ex = (if eneg then - int (digitsVal es) else int (digitsVal es));
          m = of_nat (digitsVal (ds @ fs)) * pow10 (ex - int (length fs))
      in if ds = [] \<or> (hasFrac \<and> fs = []) \<or> (hasExp \<and> es = []) then None
         else Some (toNumber (if neg then - m else m), s6))"

text \<open>
  The recursive descent over values, array elements and object members. The first
  argument bounds the number of nested calls; \<open>parseFuel\<close> gives a bound that is never
  reached.
\<close>

fun parseValue :: "nat \<Rightarrow> jsstring \<Rightarrow> json parsed"
  and parseElements :: "nat \<Rightarrow> jsstring \<Rightarrow> json list parsed"
  and parseMembers :: "nat \<Rightarrow> jsstring \<Rightarrow> (jsstring \<times> json) list parsed" where
  "parseValue 0 s = NoFuel"
| "parseValue (Suc n) s =
     (if startsWith s (js ''['') then
        (let r = skipWs (drop 1 s)
         in if startsWith r (js '']'') then Parsed (JArr []) (drop 1 r)
            else (case parseElements n r of
                    Parsed vs r' \<Rightarrow> Parsed (JArr vs) r'
                  | Invalid \<Rightarrow> Invalid
                  | NoFuel \<Rightarrow> NoFuel))
      else if startsWith s (js ''{'') then
        (let r = skipWs (drop 1 s)
         in if startsWith r (js ''}'') then Parsed (JObj []) (drop 1 r)
            else (case parseMembers n r of
                    Parsed kvs r' \<Rightarrow> Parsed (JObj kvs) r'
                  | Invalid \<Rightarrow> Invalid
                  | NoFuel \<Rightarrow> NoFuel))
      else if startsWith s (js ''\"'') then
        (case parseChars (drop 1 s) of
           None \<Rightarrow> Invalid
         | Some (str, r) \<Rightarrow> Parsed (JStr str) r)
      else if startsWith s (js ''null'') then Parsed JNull (drop 4 s)
      else if startsWith s (js ''true'') then Parsed (JBool True) (drop 4 s)
      else if startsWith s (js ''false'') then Parsed (JBool False) (drop 5 s)
      else (case parseNumber s of
              None \<Rightarrow> Invalid
            | Some (v, r) \<Rightarrow> Parsed (JNum v) r))"
| "parseElements 0 s = NoFuel"
| "parseElements (Suc n) s =
     (case parseValue n s of
        Parsed v r \<Rightarrow>
          (let r1 = skipWs r
           in if startsWith r1 (js '','') then
                (case parseElements n (skipWs (drop 1 r1)) of
                   Parsed vs r2 \<Rightarrow> Parsed (v # vs) r2
                 | Invalid \<Rightarrow> Invalid
                 | NoFuel \<Rightarrow> NoFuel)
              else if startsWith r1 (js '']'') then Parsed [v] (drop 1 r1)
              else Invalid)
      | Invalid \<Rightarrow> Invalid
      | NoFuel \<Rightarrow> NoFuel)"
| "parseMembers 0 s = NoFuel"
| "parseMembers (Suc n) s =
     (if startsWith s (js ''\"'') then
        (case parseChars (drop 1 s) of
           None \<Rightarrow> Invalid
         | Some (k, r) \<Rightarrow>
             (let r1 = skipWs r
              in if startsWith r1 (js '':'') then
                   (case parseValue n (skipWs (drop 1 r1)) of
                      Parsed v r2 \<Rightarrow>
                        (let r3 = skipWs r2
                         in if startsWith r3 (js '','') then
                              (case parseMembers n (skipWs (drop 1 r3)) of
                                 Parsed kvs r4 \<Rightarrow> Parsed ((k, v) # kvs) r4
                               | Invalid \<Rightarrow> Invalid
                               | NoFuel \<Rightarrow> NoFuel)
                            else if startsWith r3 (js ''}'') then Parsed [(k, v)] (drop 1 r3)
                            else Invalid)
                    | Invalid \<Rightarrow> Invalid
                    | NoFuel \<Rightarrow> NoFuel)
                 else Invalid))
      else Invalid)"

fun parseFuel :: "jsstring \<Rightarrow> nat" where
  "parseFuel [] = Suc 0"
| "parseFuel (c # cs) = Suc (Suc (parseFuel cs))"

text \<open>
  \<^verbatim>\<open>JSON.parse(text)\<close>: one value between optional white space, or a SyntaxError.
  An object is the list of its members in the order of the text; a lookup takes the last
  member with the key, as the object built by \<^verbatim>\<open>JSON.parse\<close> holds the last value
  stored under a repeated key.
\<close>

definition JSON_parse :: "jsstring \<Rightarrow> error + json" where
  "JSON_parse text =
     (case parseValue (parseFuel text) (skipWs text) of
        Parsed v r \<Rightarrow> (if skipWs r = [] then Inr v else Inl SyntaxError)
      | Invalid \<Rightarrow> Inl SyntaxError
      | NoFuel \<Rightarrow> Inl SyntaxError)"

section \<open>The response extractor\<close>

text \<open>
  The two texts handed to \<^verbatim>\<open>JSON.parse\<close>: the substring from the first \<open>[\<close> (91) to
  the last \<open>]\<close> (93), and the whole text without code-fence markers, trimmed.
\<close>

definition jsonCandidate :: "jsstring \<Rightarrow> jsstring" where
  "jsonCandidate text = substring text (indexOf text 91) (lastIndexOf text 93 + 1)"

definition cleanText :: "jsstring \<Rightarrow> jsstring" where
  "cleanText text = trim (replaceAll (js ''```'') [] (replaceAll (js ''```json'') [] text))"

text \<open>
  The body of the \<^verbatim>\<open>try\<close> block: the value returned, or the exception raised by
  \<^verbatim>\<open>JSON.parse\<close>.
\<close>

definition cleanAndParseJSON_try :: "jsstring \<Rightarrow> error + json" where
  "cleanAndParseJSON_try text =
     (if text = [] then Inr (JArr [])
      else
        let firstBracket = indexOf text 91;
            lastBracket = lastIndexOf text 93
        in if firstBracket \<noteq> - 1 \<and> lastBracket \<noteq> - 1
           then JSON_parse (jsonCandidate text)
           else JSON_parse (cleanText text))"

text \<open>The \<^verbatim>\<open>catch\<close> block logs the failure and returns the empty array.\<close>

definition cleanAndParseJSON :: "jsstring \<Rightarrow> json" where
  "cleanAndParseJSON text =
     (case cleanAndParseJSON_try text of Inr v \<Rightarrow> v | Inl e \<Rightarrow> JArr [])"

section \<open>JavaScript values read from a raw candidate\<close>

text \<open>
  A value of the program is a JSON value or \<^verbatim>\<open>undefined\<close>, which is \<open>None\<close>.
  \<open>getProp q k\<close> is the property read \<^verbatim>\<open>q.k\<close> on a value other than \<^verbatim>\<open>null\<close>, for
  the names the program reads (none of them is a property of a prototype, of an array or
  of a string): the last member with that key of an object, \<^verbatim>\<open>undefined\<close> otherwise.
\<close>

definition getProp :: "json \<Rightarrow> jsstring \<Rightarrow> json option" where
  "getProp q k = (case q of JObj fs \<Rightarrow> map_of (rev fs) k | _ \<Rightarrow> None)"

fun truthy :: "json option \<Rightarrow> bool" where
  "truthy None = False"
| "truthy (Some JNull) = False"
| "truthy (Some (JBool b)) = b"
| "truthy (Some (JNum n)) = (n \<noteq> Fin 0)"
| "truthy (Some (JStr s)) = (s \<noteq> [])"
| "truthy (Some (JArr xs)) = True"
| "truthy (Some (JObj fs)) = True"

text \<open>\<^verbatim>\<open>a || b\<close>.\<close>

definition jsOr :: "json option \<Rightarrow> json option \<Rightarrow> json option" where
  "jsOr a b = (if truthy a then a else b)"

fun isArray :: "json option \<Rightarrow> bool" where
  "isArray (Some (JArr xs)) = True"
| "isArray v = False"

fun elements :: "json option \<Rightarrow> json list" where
  "elements (Some (JArr xs)) = xs"
| "elements v = []"

text \<open>
  \<^verbatim>\<open>String(v)\<close>. The first argument stands for \<^verbatim>\<open>Number.prototype.toString\<close>: the
  digits that JavaScript prints for a number are left open, and every statement below
  holds for each choice of them. An array is the join of its
  elements with a comma, \<^verbatim>\<open>null\<close> elements giving the empty string. An object gives
  \<^verbatim>\<open>[object Object]\<close>, unless it has a member \<^verbatim>\<open>toString\<close> of its own: that member
  hides \<^verbatim>\<open>Object.prototype.toString\<close> and is not callable, \<^verbatim>\<open>valueOf\<close> returns no
  primitive value, and the conversion raises a TypeError.
\<close>

fun toStr :: "(jsnum \<Rightarrow> jsstring) \<Rightarrow> json \<Rightarrow> error + jsstring"
  and joinElems :: "(jsnum \<Rightarrow> jsstring) \<Rightarrow> json list \<Rightarrow> error + jsstring" where
  "toStr ns JNull = Inr (js ''null'')"
| "toStr ns (JBool b) = Inr (if b then js ''true'' else js ''false'')"
| "toStr ns (JNum n) = Inr (ns n)"
| "toStr ns (JStr s) = Inr s"
| "toStr ns (JArr xs) = joinElems ns xs"
| "toStr ns (JObj fs) =
     (if js ''toString'' \<in> set (map fst fs) then Inl TypeError else Inr (js ''[object Object]''))"
| "joinElems ns [] = Inr []"
| "joinElems ns (x # xs) =
     (case (if x = JNull then Inr [] else toStr ns x) of
        Inl e \<Rightarrow> Inl e
      | Inr s \<Rightarrow>
          (if xs = [] then Inr s
           else (case joinElems ns xs of Inl e \<Rightarrow> Inl e | Inr r \<Rightarrow> Inr (s @ js '','' @ r))))"

definition String :: "(jsnum \<Rightarrow> jsstring) \<Rightarrow> json option \<Rightarrow> error + jsstring" where
  "String ns v = (case v of None \<Rightarrow> Inr (js ''undefined'') | Some x \<Rightarrow> toStr ns x)"

text \<open>
  \<^verbatim>\<open>parseInt(s)\<close> without a radix: leading white space is dropped, a sign is read, the
  prefix \<^verbatim>\<open>0x\<close> or \<^verbatim>\<open>0X\<close> selects radix 16, and the longest run of digits is the
  number; without a digit the result is \<^verbatim>\<open>NaN\<close>, the value \<open>None\<close>. The result is the
  Number value of the integer that the digits spell (ECMAScript allows an implementation to
  replace the digits after the 20th significant one by zeros; the model does not).
\<close>

definition isHexDigit :: "nat \<Rightarrow> bool" where
  "isHexDigit c \<longleftrightarrow> hexDigit c \<noteq> None"

definition hexVal :: "jsstring \<Rightarrow> nat" where
  "hexVal ds = foldl (\<lambda>a d. 16 * a + (case hexDigit d of None \<Rightarrow> 0 | Some v \<Rightarrow> v)) 0 ds"

definition parseInt :: "jsstring \<Rightarrow> jsnum option" where
  "parseInt str =
     (let s = dropWhile isWhiteSpace str;
          neg = startsWith s (js ''-'');
          s = (if startsWith s (js ''-'') \<or> startsWith s (js ''+'') then drop 1 s else s);
          hex = (startsWith s (js ''0x'') \<or> startsWith s (js ''0X''));
          s = (if hex then drop 2 s else s);
          z = takeWhile (if hex then isHexDigit else isDigit) s;
          mathInt = int (if hex then hexVal z else digitsVal z)
      in if z = [] then None
         else Some (toNumber (of_int (if neg then - mathInt else mathInt))))"

text \<open>The comparisons \<^verbatim>\<open>a < b\<close> and \<^verbatim>\<open>a >= b\<close> on numbers.\<close>

fun numLess :: "jsnum \<Rightarrow> jsnum \<Rightarrow> bool" where
  "numLess (Fin a) (Fin b) = (a < b)"
| "numLess (Fin a) PosInf = True"
| "numLess NegInf (Fin b) = True"
| "numLess NegInf PosInf = True"
| "numLess a b = False"

definition numGeq :: "jsnum \<Rightarrow> jsnum \<Rightarrow> bool" where
  "numGeq a b \<longleftrightarrow> a = b \<or> numLess b a"

text \<open>
  A non-negative integer (an array index) and an integral time value in a template
  literal: their decimal digits.
\<close>

fun showNat :: "nat \<Rightarrow> jsstring" where
  "showNat n = (if n < 10 then [48 + n] else showNat (n div 10) @ [48 + n mod 10])"

declare showNat.simps [simp del]

definition showInt :: "int \<Rightarrow> jsstring" where
  "showInt i = (if i < 0 then js ''-'' @ showNat (nat (- i)) else showNat (nat i))"

section \<open>The question normalizer\<close>

text \<open>
  The canonical question. Its fields \<^verbatim>\<open>id\<close> and \<^verbatim>\<open>text\<close> are named \<open>id_q\<close> and
  \<open>text_q\<close> here; \<^verbatim>\<open>correctIndex\<close> is a number, which the code does not round.
\<close>

record Question =
  id_q :: jsstring
  text_q :: jsstring
  options :: "jsstring list"
  correctIndex :: jsnum
  explanation :: jsstring

text \<open>A function that may raise, applied to every element of an array.\<close>

fun mapE :: "('a \<Rightarrow> error + 'b) \<Rightarrow> 'a list \<Rightarrow> error + 'b list" where
  "mapE f [] = Inr []"
| "mapE f (x # xs) =
     (case f x of
        Inl e \<Rightarrow> Inl e
      | Inr y \<Rightarrow> (case mapE f xs of Inl e \<Rightarrow> Inl e | Inr ys \<Rightarrow> Inr (y # ys)))"

text \<open>\<^verbatim>\<open>q.question || q.Question || q.text || q.query\<close>\<close>

definition questionTextOf :: "json \<Rightarrow> json option" where
  "questionTextOf q =
     jsOr (jsOr (jsOr (getProp q (js ''question'')) (getProp q (js ''Question'')))
                (getProp q (js ''text'')))
          (getProp q (js ''query''))"

text \<open>\<^verbatim>\<open>q.options || q.Options || q.choices || q.answers\<close>\<close>

definition optionsListOf :: "json \<Rightarrow> json option" where
  "optionsListOf q =
     jsOr (jsOr (jsOr (getProp q (js ''options'')) (getProp q (js ''Options'')))
                (getProp q (js ''choices'')))
          (getProp q (js ''answers''))"

text \<open>\<^verbatim>\<open>q.explanation || q.Explanation || "No explanation provided."\<close>\<close>

definition explanationOf :: "json \<Rightarrow> json option" where
  "explanationOf q =
     jsOr (jsOr (getProp q (js ''explanation'')) (getProp q (js ''Explanation'')))
          (Some (JStr (js ''No explanation provided.'')))"

text \<open>
  The index before clamping: \<^verbatim>\<open>correctIndex\<close> when it is a number, its
  \<^verbatim>\<open>parseInt(...) || 0\<close> when it is a string, else \<^verbatim>\<open>answerIndex\<close> when that is a
  number, else 0.
\<close>

definition resolveCorrectIdx :: "json \<Rightarrow> jsnum" where
  "resolveCorrectIdx q =
     (case getProp q (js ''correctIndex'') of
        Some (JNum n) \<Rightarrow> n
      | Some (JStr s) \<Rightarrow>
          (case parseInt s of None \<Rightarrow> Fin 0 | Some v \<Rightarrow> (if v = Fin 0 then Fin 0 else v))
      | _ \<Rightarrow> (case getProp q (js ''answerIndex'') of Some (JNum n) \<Rightarrow> n | _ \<Rightarrow> Fin 0))"

text \<open>
  \<^verbatim>\<open>if (correctIdx < 0) correctIdx = 0;
  if (correctIdx >= cleanOptions.length) correctIdx = cleanOptions.length - 1;\<close>
\<close>

definition clampIdx :: "jsnum \<Rightarrow> nat \<Rightarrow> jsnum" where
  "clampIdx correctIdx len =
     (let c = (if numLess correctIdx (Fin 0) then Fin 0 else correctIdx)
      in if numGeq c (Fin (of_nat len)) then Fin (of_nat len - 1) else c)"

text \<open>\<^verbatim>\<open>processText = (txt) => latexToSimple(repairMalformedLatex(String(txt)))\<close>\<close>

definition processText :: "(jsnum \<Rightarrow> jsstring) \<Rightarrow> json option \<Rightarrow> error + jsstring" where
  "processText ns txt =
     (case String ns txt of
        Inl e \<Rightarrow> Inl e
      | Inr s \<Rightarrow> Inr (latexToSimple (repairMalformedLatex s)))"

text \<open>
  \<open>normalizeQuestion ns now q index prefix\<close>: \<open>now\<close> is the value of \<^verbatim>\<open>Date.now()\<close>
  in this call. The result is the question, \<^verbatim>\<open>null\<close> (\<open>Inr None\<close>) or the exception
  raised: reading a property of \<^verbatim>\<open>null\<close> and a failing \<^verbatim>\<open>String(txt)\<close> raise a
  TypeError.
\<close>

definition normalizeQuestion ::
  "(jsnum \<Rightarrow> jsstring) \<Rightarrow> int \<Rightarrow> json \<Rightarrow> nat \<Rightarrow> jsstring \<Rightarrow> error + Question option" where
  "normalizeQuestion ns now q index prefix =
     (if q = JNull then Inl TypeError
      else
        let questionText = questionTextOf q;
            optionsList = optionsListOf q
        in if \<not> truthy questionText \<or> \<not> isArray optionsList \<or> length (elements optionsList) < 2
           then Inr None
           else
             (case mapE (\<lambda>opt. processText ns (Some opt)) (elements optionsList) of
                Inl e \<Rightarrow> Inl e
              | Inr cleanOptions \<Rightarrow>
                  (let correctIdx = clampIdx (resolveCorrectIdx q) (length cleanOptions)
                   in case processText ns questionText of
                        Inl e \<Rightarrow> Inl e
                      | Inr txt \<Rightarrow>
                          (case processText ns (explanationOf q) of
                             Inl e \<Rightarrow> Inl e
                           | Inr ex \<Rightarrow>
                               Inr (Some \<lparr> id_q = prefix @ js ''-'' @ showInt now @ js ''-''
                                                  @ showNat index,
                                           text_q = txt,
                                           options = cleanOptions,
                                           correctIndex = correctIdx,
                                           explanation = ex \<rparr>)))))"

section \<open>From the model response to the questions\<close>

text \<open>
  What both generation functions do with the response: \<^verbatim>\<open>response.text || "[]"\<close> goes
  through the extractor, every element of the result through the normalizer with its
  position, and the \<^verbatim>\<open>null\<close> results are filtered out. \<open>clock i\<close> is the value of
  \<^verbatim>\<open>Date.now()\<close> while element \<open>i\<close> is normalized. An exception (also the TypeError of
  \<^verbatim>\<open>rawData.map\<close> when the extractor returned no array) is caught by the function and
  the result is the empty list.
\<close>

definition questionsFromResponse ::
  "(jsnum \<Rightarrow> jsstring) \<Rightarrow> (nat \<Rightarrow> int) \<Rightarrow> jsstring \<Rightarrow> jsstring option \<Rightarrow> Question list" where
  "questionsFromResponse ns clock prefix responseText =
     (let rawData = cleanAndParseJSON
            (case responseText of None \<Rightarrow> js ''[]'' | Some t \<Rightarrow> (if t = [] then js ''[]'' else t))
      in case rawData of
           JArr xs \<Rightarrow>
             (case mapE (\<lambda>(i, q). normalizeQuestion ns (clock i) q i prefix) (enumerate 0 xs) of
                Inl e \<Rightarrow> []
              | Inr rs \<Rightarrow> List.map_filter (\<lambda>r. r) rs)
         | _ \<Rightarrow> [])"

text \<open>
  The two entry points, as functions of the outcome of the call to the model: an
  exception or the response text (which may be \<^verbatim>\<open>undefined\<close>).
\<close>

definition generateBattleQuestions ::
  "(jsnum \<Rightarrow> jsstring) \<Rightarrow> (nat \<Rightarrow> int) \<Rightarrow> error + jsstring option \<Rightarrow> Question list" where
  "generateBattleQuestions ns clock response =
     (case response of
        Inl e \<Rightarrow> []
      | Inr responseText \<Rightarrow> questionsFromResponse ns clock (js ''battle'') responseText)"

definition generatePracticeQuestions ::
  "(jsnum \<Rightarrow> jsstring) \<Rightarrow> (nat \<Rightarrow> int) \<Rightarrow> error + jsstring option \<Rightarrow> Question list" where
  "generatePracticeQuestions ns clock response =
     (case response of
        Inl e \<Rightarrow> []
      | Inr responseText \<Rightarrow> questionsFromResponse ns clock (js ''practice'') responseText)"

section \<open>Notions of the statements and proofs\<close>

text \<open>
  The values for which \<^verbatim>\<open>String(v)\<close> returns: no object that the conversion reaches
  (the value itself or, through arrays, one of its elements) has a member \<^verbatim>\<open>toString\<close>
  of its own. A raw candidate is \<open>convertible\<close> when this holds for the three values
  that the normalizer converts: the question text, every option and the explanation.
\<close>

fun plain :: "json \<Rightarrow> bool"
  and plainAll :: "json list \<Rightarrow> bool" where
  "plain (JObj fs) = (js ''toString'' \<notin> set (map fst fs))"
| "plain (JArr xs) = plainAll xs"
| "plain JNull = True"
| "plain (JBool b) = True"
| "plain (JNum n) = True"
| "plain (JStr s) = True"
| "plainAll [] = True"
| "plainAll (x # xs) = (plain x \<and> plainAll xs)"

definition convertible :: "json \<Rightarrow> bool" where
  "convertible q \<longleftrightarrow>
     plainAll (elements (optionsListOf q)) \<and>
     (case questionTextOf q of None \<Rightarrow> True | Some v \<Rightarrow> plain v) \<and>
     (case explanationOf q of None \<Rightarrow> True | Some v \<Rightarrow> plain v)"

section \<open>Evaluation rules\<close>

lemma js_Nil: "js [] = []"
  and js_Cons: "js (c # cs) = of_char c # js cs"
  by (simp_all add: js_def)

lemmas str_eval = js_Nil js_Cons bsl_def startsWith_def isWhiteSpace_def isAlnum_def trim_def
  wordEnd_def isDigit_def isJsonWs_def skipWs_def Let_def

lemmas weak_congs = let_weak_cong option.case_cong_weak parsed.case_cong_weak
  sum.case_cong_weak list.case_cong_weak prod.case_cong_weak json.case_cong_weak

subsection \<open>Integers below \<open>2 ^ 53\<close> are Number values\<close>

lemma roundHalfEven_of_int: "roundHalfEven (of_int z) = z"
  by (simp add: roundHalfEven_def)

lemma pow2_nonpos: "e \<le> 0 \<Longrightarrow> pow2 e = 1 / 2 ^ nat (- e)"
  by (cases "e = 0") (simp_all add: pow2_def)

lemma toNumber_of_int:
  assumes "\<bar>n\<bar> < 2 ^ 53"
  shows "toNumber (of_int n) = Fin (of_int n)"
proof (cases "n = 0")
  case True
  then show ?thesis by (simp add: toNumber_def)
next
  case False
  define k where "k = floorlog 2 (nat \<bar>n\<bar>)"
  define a :: rat where "a = \<bar>of_int n\<bar>"
  have a_int: "a = of_int \<bar>n\<bar>" by (simp add: a_def)
  have a1: "1 \<le> a" using False by (simp add: a_def)
  have kle: "k \<le> 53"
    unfolding k_def using assms by (simp add: floorlog_le_iff nat_less_iff)
  have kpos: "0 < k"
    unfolding k_def using False by (simp add: floorlog_def)
  have fl: "nat \<lfloor>a\<rfloor> = nat \<bar>n\<bar>" by (simp only: a_int floor_of_int)
  have il: "ilog2 a = int k - 1"
    using a1 by (simp add: ilog2_def fl k_def)
  define e where "e = max (ilog2 a - 52) (- 1074)"
  have e_eq: "e = int k - 53" using kle kpos by (simp add: e_def il)
  have e_le: "e \<le> 0" using kle by (simp add: e_eq)
  have ne: "nat (- e) = 53 - k" using kle by (simp add: e_eq)
  have p: "pow2 e = 1 / 2 ^ (53 - k)" using pow2_nonpos[OF e_le] by (simp add: ne)
  have q: "a / pow2 e = of_int (\<bar>n\<bar> * 2 ^ (53 - k))"
    by (simp add: p a_int del: of_int_abs)
  have m: "roundHalfEven (a / pow2 e) = \<bar>n\<bar> * 2 ^ (53 - k)"
    unfolding q by (rule roundHalfEven_of_int)
  have v: "of_int (roundHalfEven (a / pow2 e)) * pow2 e = a"
  proof -
    have "of_int (roundHalfEven (a / pow2 e)) * pow2 e
        = (of_int (\<bar>n\<bar> * 2 ^ (53 - k)) :: rat) * pow2 e"
      by (simp only: m)
    also have "\<dots> = (of_int (\<bar>n\<bar> * 2 ^ (53 - k)) :: rat) * (1 / 2 ^ (53 - k))"
      by (simp only: p)
    also have "\<dots> = a" by (simp add: a_int del: of_int_abs)
    finally show ?thesis .
  qed
  have "of_int \<bar>n\<bar> < (of_int (2 ^ 53) :: rat)"
    using assms by (simp only: of_int_less_iff)
  then have "a < 2 ^ 53" by (simp add: a_int del: of_int_abs)
  also have "(2::rat) ^ 53 \<le> 2 ^ 1024" by (rule power_increasing) simp_all
  finally have small: "\<not> 2 ^ 1024 \<le> a" by (simp only: not_le)
  have nz: "(of_int n :: rat) \<noteq> 0" using False by simp
  have "toNumber (of_int n) =
     (if 2 ^ 1024 \<le> of_int (roundHalfEven (a / pow2 e)) * pow2 e
      then (if (of_int n :: rat) < 0 then NegInf else PosInf)
      else Fin (if (of_int n :: rat) < 0 then - (of_int (roundHalfEven (a / pow2 e)) * pow2 e)
                else of_int (roundHalfEven (a / pow2 e)) * pow2 e))"
    unfolding toNumber_def Let_def a_def e_def by (simp only: nz if_False)
  also have "\<dots> = Fin (if (of_int n :: rat) < 0 then - a else a)"
    unfolding v using small by (simp only: if_False)
  also have "(if (of_int n :: rat) < 0 then - a else a) = of_int n"
    by (simp add: a_def)
  finally show ?thesis .
qed

lemma toNumber_of_nat:
  assumes "n < 2 ^ 53"
  shows "toNumber (of_nat n) = Fin (of_nat n)"
proof -
  have "int n < int (2 ^ 53)" using assms by (simp only: of_nat_less_iff)
  then have "\<bar>int n\<bar> < 2 ^ 53" by simp
  from toNumber_of_int [OF this] show ?thesis by simp
qed

lemma toNumber_1: "toNumber 1 = Fin 1"
  using toNumber_of_int [of 1] by simp

lemma toNumber_2: "toNumber 2 = Fin 2"
  using toNumber_of_int [of 2] by simp

lemma toNumber_5: "toNumber 5 = Fin 5"
  using toNumber_of_int [of 5] by simp

text \<open>So is \<open>1.5\<close>, a number with one binary digit behind the point.\<close>

lemma toNumber_3_2: "toNumber (3 / 2) = Fin (3 / 2)"
proof -
  have a: "\<bar>3 / 2 :: rat\<bar> = 3 / 2" by simp
  have fl: "floorlog 2 (Suc 0) = 1" by (simp add: floorlog_def)
  have f: "\<lfloor>3 / 2 :: rat\<rfloor> = 1" by (simp add: floor_eq_iff)
  have il: "ilog2 (3 / 2) = 0"
    by (simp add: ilog2_def fl f)
  have e: "max (ilog2 (3 / 2) - 52) (- 1074) = - 52" by (simp add: il)
  have p: "pow2 (- 52) = 1 / 2 ^ 52" by (simp add: pow2_def)
  have q: "(3 / 2 :: rat) / pow2 (- 52) = of_int (3 * 2 ^ 51)"
    unfolding p by simp
  have m: "roundHalfEven ((3 / 2 :: rat) / pow2 (- 52)) = 3 * 2 ^ 51"
    unfolding q by (rule roundHalfEven_of_int)
  have v: "of_int (3 * 2 ^ 51) * pow2 (- 52) = (3 / 2 :: rat)"
    unfolding p by simp
  have "(3 / 2 :: rat) < 2 ^ 1" by simp
  also have "(2 :: rat) ^ 1 \<le> 2 ^ 1024" by (rule power_increasing) simp_all
  finally have small: "\<not> 2 ^ 1024 \<le> (3 / 2 :: rat)" by (simp only: not_le)
  have nz: "(3 / 2 :: rat) \<noteq> 0" "\<not> (3 / 2 :: rat) < 0" by simp_all
  show ?thesis
    unfolding toNumber_def Let_def a e m v using small nz by (simp only: if_False)
qed

lemmas json_eval = JSON_parse_def str_eval parseNumber_def digitsVal_def pow10_def
  toNumber_1 toNumber_2 toNumber_5

lemmas extract_eval = cleanAndParseJSON_def cleanAndParseJSON_try_def jsonCandidate_def
  cleanText_def lastIndexOf_def substring_def json_eval

lemmas markup_eval = repairMalformedLatex_def latexToSimple_def str_eval

section \<open>The recursion budget of the parser is never exhausted\<close>

text \<open>
  Every parsing function returns a rest that is shorter than its input, and every nested
  call is on a shorter input with a budget that is smaller by one. With the budget
  \<open>parseFuel text\<close>, which is twice the length of the text plus one, the parser
  therefore never answers \<open>NoFuel\<close>: \<open>JSON_parse\<close> fails on syntax errors only.
\<close>

lemma length_skipWs: "length (skipWs s) \<le> length s"
  by (simp add: skipWs_def length_dropWhile_le)

lemma parseFuel_eq: "parseFuel s = 2 * length s + 1"
  by (induction s) simp_all

lemma parseChars_shorter: "parseChars s = Some (k, r) \<Longrightarrow> length r < length s"
proof (induction s arbitrary: k r rule: parseChars.induct)
  case 1
  then show ?case by simp
next
  case (2 c)
  then show ?case by (simp split: if_splits)
next
  case (3 c e r')
  show ?case
  proof (cases "c = 34")
    case True
    with "3.prems" show ?thesis by simp
  next
    case c34: False
    show ?thesis
    proof (cases "c = 92")
      case True
      show ?thesis
      proof (cases "e = 117")
        case e: True
        with True c34 "3.prems" obtain u str where
          h: "hex4 r' = Some u" and p: "parseChars (drop 4 r') = Some (str, r)"
          by (auto split: option.splits)
        from "3.IH"(1) [OF c34 True e h p] have "length r < length (drop 4 r')" .
        then show ?thesis by simp
      next
        case e: False
        with True c34 "3.prems" obtain u str where
          h: "(if e = 34 then Some 34 else if e = 92 then Some 92 else if e = 47 then Some 47
                  else if e = 98 then Some 8 else if e = 102 then Some 12
                  else if e = 110 then Some 10 else if e = 114 then Some 13
                  else if e = 116 then Some 9 else None) = Some (u::nat)"
          and p: "parseChars r' = Some (str, r)"
          by (simp split: option.splits) blast
        from "3.IH"(2) [OF c34 True e h p] have "length r < length r'" .
        then show ?thesis by simp
      qed
    next
      case False
      with c34 "3.prems" have lt: "\<not> c < 32" by (auto split: if_splits)
      with False c34 "3.prems" obtain str where p: "parseChars (e # r') = Some (str, r)"
        by auto
      from "3.IH"(3) [OF c34 False lt p] have "length r < length (e # r')" .
      then show ?thesis by simp
    qed
  qed
qed

lemma startsWith_nonempty: "startsWith s pat \<Longrightarrow> pat \<noteq> [] \<Longrightarrow> s \<noteq> []"
  by (auto simp add: startsWith_def)

lemma parseNumber_shorter:
  assumes "parseNumber s = Some (v, r)"
  shows "length r < length s"
proof -
  define s1 where "s1 = (if startsWith s (js ''-'') then drop 1 s else s)"
  define ds where "ds = (if startsWith s1 (js ''0'') then js ''0'' else takeWhile isDigit s1)"
  define s2 where "s2 = drop (length ds) s1"
  define hasFrac where "hasFrac = startsWith s2 (js ''.'')"
  define fs where "fs = (if hasFrac then takeWhile isDigit (drop 1 s2) else [])"
  define s3 where "s3 = (if hasFrac then drop (Suc (length fs)) s2 else s2)"
  define hasExp where "hasExp = (startsWith s3 (js ''e'') \<or> startsWith s3 (js ''E''))"
  define s4 where "s4 = (if hasExp then drop 1 s3 else s3)"
  define s5 where "s5 = (if hasExp \<and> (startsWith s4 (js ''-'') \<or> startsWith s4 (js ''+''))
                then drop 1 s4 else s4)"
  define es where "es = (if hasExp then takeWhile isDigit s5 else [])"
  define s6 where "s6 = drop (length es) s5"
  have "parseNumber s =
     (if ds = [] \<or> (hasFrac \<and> fs = []) \<or> (hasExp \<and> es = []) then None
      else Some (toNumber (if startsWith s (js ''-'')
          then - (of_nat (digitsVal (ds @ fs)) * pow10 ((if hasExp \<and> startsWith s4 (js ''-'') then - int (digitsVal es) else int (digitsVal es)) - int (length fs)))
          else of_nat (digitsVal (ds @ fs)) * pow10 ((if hasExp \<and> startsWith s4 (js ''-'') then - int (digitsVal es) else int (digitsVal es)) - int (length fs))), s6))"
    unfolding parseNumber_def Let_def s1_def ds_def s2_def hasFrac_def fs_def s3_def hasExp_def
      s4_def s5_def es_def s6_def by (rule refl)
  with assms have nz: "ds \<noteq> []" and r: "r = s6"
    by (auto split: if_splits)
  have l1: "length s1 \<le> length s" by (simp add: s1_def)
  have dpos: "0 < length ds" using nz by simp
  have dle: "length ds \<le> length s1"
  proof (cases "startsWith s1 (js ''0'')")
    case True
    then have "s1 \<noteq> []" by (rule startsWith_nonempty) (simp add: js_Cons)
    with True show ?thesis by (cases s1) (simp_all add: ds_def js_Nil js_Cons)
  next
    case False
    then show ?thesis by (simp add: ds_def length_takeWhile_le)
  qed
  have "length s2 = length s1 - length ds" by (simp add: s2_def)
  with dpos dle have l2: "length s2 < length s1" by linarith
  have l3: "length s3 \<le> length s2" by (simp add: s3_def)
  have l4: "length s4 \<le> length s3" by (simp add: s4_def)
  have l5: "length s5 \<le> length s4" by (simp add: s5_def)
  have l6: "length s6 \<le> length s5" by (simp add: s6_def)
  from l1 l2 l3 l4 l5 l6 r show ?thesis by simp
qed


lemma drop1_startsWith: "startsWith s pat \<Longrightarrow> pat \<noteq> [] \<Longrightarrow> length (drop 1 s) < length s"
  using startsWith_nonempty by (cases s) auto

lemma skip_drop1:
  assumes "startsWith s pat" and "pat \<noteq> []"
  shows "Suc (length (skipWs (drop 1 s))) \<le> length s"
proof -
  have "length (skipWs (drop 1 s)) \<le> length (drop 1 s)" by (rule length_skipWs)
  with drop1_startsWith [OF assms] show ?thesis by simp
qed

lemma one_char: "js ''['' \<noteq> []" "js '']'' \<noteq> []" "js ''{'' \<noteq> []" "js ''}'' \<noteq> []"
  "js '','' \<noteq> []" "js '':'' \<noteq> []" "js ''\"'' \<noteq> []"
  by (simp_all add: js_Cons)

lemma parse_fuel_enough:
  "(\<forall>s. 2 * length s < n \<longrightarrow>
      parseValue n s \<noteq> NoFuel \<and> (\<forall>v r. parseValue n s = Parsed v r \<longrightarrow> length r < length s)) \<and>
   (\<forall>s. 2 * length s + 1 < n \<longrightarrow>
      parseElements n s \<noteq> NoFuel \<and> (\<forall>v r. parseElements n s = Parsed v r \<longrightarrow> length r < length s)) \<and>
   (\<forall>s. 2 * length s + 1 < n \<longrightarrow>
      parseMembers n s \<noteq> NoFuel \<and> (\<forall>v r. parseMembers n s = Parsed v r \<longrightarrow> length r < length s))"
proof (induction n)
  case 0
  then show ?case by simp
next
  case (Suc n)
  then have
    ihV: "\<And>s. 2 * length s < n \<Longrightarrow> parseValue n s \<noteq> NoFuel"
      "\<And>s v r. 2 * length s < n \<Longrightarrow> parseValue n s = Parsed v r \<Longrightarrow> length r < length s" and
    ihE: "\<And>s. 2 * length s + 1 < n \<Longrightarrow> parseElements n s \<noteq> NoFuel"
      "\<And>s v r. 2 * length s + 1 < n \<Longrightarrow> parseElements n s = Parsed v r \<Longrightarrow> length r < length s" and
    ihM: "\<And>s. 2 * length s + 1 < n \<Longrightarrow> parseMembers n s \<noteq> NoFuel"
      "\<And>s v r. 2 * length s + 1 < n \<Longrightarrow> parseMembers n s = Parsed v r \<Longrightarrow> length r < length s"
    by blast+
  have V: "parseValue (Suc n) s \<noteq> NoFuel \<and>
      (\<forall>v r. parseValue (Suc n) s = Parsed v r \<longrightarrow> length r < length s)"
    if b: "2 * length s < Suc n" for s
  proof (cases "startsWith s (js ''['')")
    case True
    define r0 where "r0 = skipWs (drop 1 s)"
    have l0: "Suc (length r0) \<le> length s"
      unfolding r0_def using True one_char(1) by (rule skip_drop1)
    have eq: "parseValue (Suc n) s =
       (if startsWith r0 (js '']'') then Parsed (JArr []) (drop 1 r0)
        else (case parseElements n r0 of
                Parsed vs r' \<Rightarrow> Parsed (JArr vs) r'
              | Invalid \<Rightarrow> Invalid
              | NoFuel \<Rightarrow> NoFuel))"
      using True by (simp add: r0_def Let_def)
    show ?thesis
    proof (cases "startsWith r0 (js '']'')")
      case c: True
      have "length (drop 1 r0) < length r0" using c one_char(2) by (rule drop1_startsWith)
      with l0 c show ?thesis unfolding eq by auto
    next
      case c: False
      from l0 b have f: "2 * length r0 + 1 < n" by linarith
      from ihE(1) [OF f] ihE(2) [OF f] l0 c show ?thesis
        unfolding eq by (auto split: parsed.splits)
    qed
  next
    case nb: False
    show ?thesis
    proof (cases "startsWith s (js ''{'')")
      case True
      define r0 where "r0 = skipWs (drop 1 s)"
      have l0: "Suc (length r0) \<le> length s"
        unfolding r0_def using True one_char(3) by (rule skip_drop1)
      have eq: "parseValue (Suc n) s =
         (if startsWith r0 (js ''}'') then Parsed (JObj []) (drop 1 r0)
          else (case parseMembers n r0 of
                  Parsed kvs r' \<Rightarrow> Parsed (JObj kvs) r'
                | Invalid \<Rightarrow> Invalid
                | NoFuel \<Rightarrow> NoFuel))"
        using True nb by (simp add: r0_def Let_def)
      show ?thesis
      proof (cases "startsWith r0 (js ''}'')")
        case c: True
        have "length (drop 1 r0) < length r0" using c one_char(4) by (rule drop1_startsWith)
        with l0 c show ?thesis unfolding eq by auto
      next
        case c: False
        from l0 b have f: "2 * length r0 + 1 < n" by linarith
        from ihM(1) [OF f] ihM(2) [OF f] l0 c show ?thesis
          unfolding eq by (auto split: parsed.splits)
      qed
    next
      case no: False
      show ?thesis
      proof (cases "startsWith s (js ''\"'')")
        case True
        have d: "length (drop 1 s) < length s" using True one_char(7) by (rule drop1_startsWith)
        have eq: "parseValue (Suc n) s =
           (case parseChars (drop 1 s) of
              None \<Rightarrow> Invalid
            | Some (str, r) \<Rightarrow> Parsed (JStr str) r)"
          using True nb no by simp
        have "length r < length s" if "parseChars (drop 1 s) = Some (k, r)" for k r
          using parseChars_shorter [OF that] d by simp
        then show ?thesis
          unfolding eq by (auto split: option.splits)
      next
        case ns: False
        have lit: "length (drop k s) < length s" if "startsWith s pat" "pat \<noteq> []" "0 < k" for pat k
          using startsWith_nonempty [OF that(1,2)] that(3) by (cases s) auto
        have n4: "js ''null'' \<noteq> []" "js ''true'' \<noteq> []" "js ''false'' \<noteq> []"
          by (simp_all add: js_Cons)
        have eq: "parseValue (Suc n) s =
           (if startsWith s (js ''null'') then Parsed JNull (drop 4 s)
            else if startsWith s (js ''true'') then Parsed (JBool True) (drop 4 s)
            else if startsWith s (js ''false'') then Parsed (JBool False) (drop 5 s)
            else (case parseNumber s of
                    None \<Rightarrow> Invalid
                  | Some (v, r) \<Rightarrow> Parsed (JNum v) r))"
          using nb no ns by simp
        have "length r < length s" if "parseNumber s = Some (v, r)" for v r
          using that by (rule parseNumber_shorter)
        with lit [OF _ n4(1), of 4] lit [OF _ n4(2), of 4] lit [OF _ n4(3), of 5]
        show ?thesis
          unfolding eq by (auto split: option.splits)
      qed
    qed
  qed
  have E: "parseElements (Suc n) s \<noteq> NoFuel \<and>
      (\<forall>v r. parseElements (Suc n) s = Parsed v r \<longrightarrow> length r < length s)"
    if b: "2 * length s + 1 < Suc n" for s
  proof -
    from b have f: "2 * length s < n" by simp
    show ?thesis
    proof (cases "parseValue n s")
      case (Parsed v r)
      from ihV(2) [OF f Parsed] have lr: "length r < length s" .
      define r1 where "r1 = skipWs r"
      have l1: "length r1 \<le> length r" unfolding r1_def by (rule length_skipWs)
      define r2 where "r2 = skipWs (drop 1 r1)"
      have eq: "parseElements (Suc n) s =
         (if startsWith r1 (js '','') then
            (case parseElements n r2 of
               Parsed vs r2' \<Rightarrow> Parsed (v # vs) r2'
             | Invalid \<Rightarrow> Invalid
             | NoFuel \<Rightarrow> NoFuel)
          else if startsWith r1 (js '']'') then Parsed [v] (drop 1 r1)
          else Invalid)"
        using Parsed by (simp add: r1_def r2_def Let_def)
      show ?thesis
      proof (cases "startsWith r1 (js '','')")
        case True
        have l2: "Suc (length r2) \<le> length r1"
          unfolding r2_def using True one_char(5) by (rule skip_drop1)
        from l2 l1 lr f have g: "2 * length r2 + 1 < n" by linarith
        from ihE(1) [OF g] ihE(2) [OF g] l2 l1 lr True show ?thesis
          unfolding eq by (auto split: parsed.splits)
      next
        case False
        have "length (drop 1 r1) < length r1" if "startsWith r1 (js '']'')"
          using that one_char(2) by (rule drop1_startsWith)
        with l1 lr False show ?thesis
          unfolding eq by auto
      qed
    next
      case Invalid
      then show ?thesis by simp
    next
      case NoFuel
      with ihV(1) [OF f] show ?thesis by simp
    qed
  qed
  have M: "parseMembers (Suc n) s \<noteq> NoFuel \<and>
      (\<forall>v r. parseMembers (Suc n) s = Parsed v r \<longrightarrow> length r < length s)"
    if b: "2 * length s + 1 < Suc n" for s
  proof (cases "startsWith s (js ''\"'')")
    case q: True
    have d: "length (drop 1 s) < length s" using q one_char(7) by (rule drop1_startsWith)
    show ?thesis
    proof (cases "parseChars (drop 1 s)")
      case None
      with q show ?thesis by simp
    next
      case (Some kr)
      obtain k r where kr: "kr = (k, r)" by (cases kr)
      from parseChars_shorter [OF Some [unfolded kr]] d have lr: "length r < length s" by simp
      define r1 where "r1 = skipWs r"
      have l1: "length r1 \<le> length r" unfolding r1_def by (rule length_skipWs)
      define r1' where "r1' = skipWs (drop 1 r1)"
      have eq1: "parseMembers (Suc n) s =
         (if startsWith r1 (js '':'') then
            (case parseValue n r1' of
               Parsed v r2 \<Rightarrow>
                 (let r3 = skipWs r2
                  in if startsWith r3 (js '','') then
                       (case parseMembers n (skipWs (drop 1 r3)) of
                          Parsed kvs r4 \<Rightarrow> Parsed ((k, v) # kvs) r4
                        | Invalid \<Rightarrow> Invalid
                        | NoFuel \<Rightarrow> NoFuel)
                     else if startsWith r3 (js ''}'') then Parsed [(k, v)] (drop 1 r3)
                     else Invalid)
             | Invalid \<Rightarrow> Invalid
             | NoFuel \<Rightarrow> NoFuel)
          else Invalid)"
        using q Some kr by (simp add: r1_def r1'_def Let_def)
      show ?thesis
      proof (cases "startsWith r1 (js '':'')")
        case c: True
        have l1': "Suc (length r1') \<le> length r1"
          unfolding r1'_def using c one_char(6) by (rule skip_drop1)
        from l1' l1 lr b have f: "2 * length r1' < n" by linarith
        show ?thesis
        proof (cases "parseValue n r1'")
          case (Parsed v r2)
          from ihV(2) [OF f Parsed] have l2: "length r2 < length r1'" .
          define r3 where "r3 = skipWs r2"
          have l3: "length r3 \<le> length r2" unfolding r3_def by (rule length_skipWs)
          define r4 where "r4 = skipWs (drop 1 r3)"
          have eq2: "parseMembers (Suc n) s =
             (if startsWith r3 (js '','') then
                (case parseMembers n r4 of
                   Parsed kvs r4' \<Rightarrow> Parsed ((k, v) # kvs) r4'
                 | Invalid \<Rightarrow> Invalid
                 | NoFuel \<Rightarrow> NoFuel)
              else if startsWith r3 (js ''}'') then Parsed [(k, v)] (drop 1 r3)
              else Invalid)"
            unfolding eq1 using c Parsed by (simp add: r3_def r4_def Let_def)
          show ?thesis
          proof (cases "startsWith r3 (js '','')")
            case True
            have l4: "Suc (length r4) \<le> length r3"
              unfolding r4_def using True one_char(5) by (rule skip_drop1)
            from l4 l3 l2 l1' l1 lr b have g: "2 * length r4 + 1 < n" by linarith
            from ihM(1) [OF g] ihM(2) [OF g] l4 l3 l2 l1' l1 lr True
            show ?thesis
              unfolding eq2 by (auto split: parsed.splits)
          next
            case False
            have "length (drop 1 r3) < length r3" if "startsWith r3 (js ''}'')"
              using that one_char(4) by (rule drop1_startsWith)
            with l3 l2 l1' l1 lr False show ?thesis
              unfolding eq2 by auto
          qed
        next
          case Invalid
          with c show ?thesis unfolding eq1 by simp
        next
          case NoFuel
          with ihV(1) [OF f] show ?thesis by simp
        qed
      next
        case False
        then show ?thesis unfolding eq1 by simp
      qed
    qed
  next
    case False
    then show ?thesis by simp
  qed
  from V E M show ?case by blast
qed

lemma JSON_parse_has_fuel: "parseValue (parseFuel text) (skipWs text) \<noteq> NoFuel"
proof -
  have "2 * length (skipWs text) < parseFuel text"
    using length_skipWs [of "text"] by (simp add: parseFuel_eq)
  with parse_fuel_enough [of "parseFuel text"] show ?thesis by blast
qed

section \<open>The markup repairer is not idempotent\<close>

text \<open>
  Claim C3: the repairer leaves already-correct markup unchanged, in particular
  \<open>repair (repair x) = repair x\<close> for every string. On \<^verbatim>\<open>times times\<close> the first pass
  repairs the first word only: the match takes the space behind it, so the second word is
  no longer preceded by a white-space character that the scan can still read. The second
  pass repairs the second word, and the two results differ. The patterns for the
  commands with a brace take nothing behind the token and repair both of two neighbours.
\<close>

theorem repair_twice_differs:
  "repairMalformedLatex (js ''times times'') = bsl @ js ''times times'' \<and>
   repairMalformedLatex (repairMalformedLatex (js ''times times''))
     = bsl @ js ''times '' @ bsl @ js ''times'' \<and>
   repairMalformedLatex (repairMalformedLatex (js ''times times''))
     \<noteq> repairMalformedLatex (js ''times times'') \<and>
   repairMalformedLatex (js ''sqrt{2} sqrt{3}'')
     = bsl @ js ''sqrt{2} '' @ bsl @ js ''sqrt{3}''"
  by (simp add: markup_eval)

section \<open>Properties of the response extractor\<close>

text \<open>
  Claim C1, as stated: when both brackets are present and the bracketed substring does not
  parse, the extractor falls back to the fence-stripped text and returns its parse. It
  does not: on the text \<^verbatim>\<open>{"q":"[a]"}\<close> the substring \<^verbatim>\<open>[a]\<close> is no JSON, the whole text
  is, and the extractor returns the empty array.
\<close>

theorem extractor_fallback_counterexample:
  "indexOf (js ''{\"q\":\"[a]\"}'') 91 \<noteq> - 1 \<and>
   lastIndexOf (js ''{\"q\":\"[a]\"}'') 93 \<noteq> - 1 \<and>
   JSON_parse (jsonCandidate (js ''{\"q\":\"[a]\"}'')) = Inl SyntaxError \<and>
   JSON_parse (cleanText (js ''{\"q\":\"[a]\"}'')) = Inr (JObj [(js ''q'', JStr (js ''[a]''))]) \<and>
   cleanAndParseJSON (js ''{\"q\":\"[a]\"}'') \<noteq> JObj [(js ''q'', JStr (js ''[a]''))]"
  by (simp add: extract_eval cong: weak_congs)

text \<open>
  Claim C1, amended: when both brackets are present and the bracketed substring does not
  parse, the exception of \<^verbatim>\<open>JSON.parse\<close> leaves the \<^verbatim>\<open>try\<close> block, no fallback is
  tried, and the extractor returns the empty array.
\<close>

theorem extractor_failed_candidate_gives_empty:
  assumes "indexOf text 91 \<noteq> - 1"
    and "lastIndexOf text 93 \<noteq> - 1"
    and "JSON_parse (jsonCandidate text) = Inl e"
  shows "cleanAndParseJSON_try text = Inl e \<and> cleanAndParseJSON text = JArr []"
proof -
  from assms(1) have "text \<noteq> []" by auto
  with assms show ?thesis
    by (simp add: cleanAndParseJSON_def cleanAndParseJSON_try_def)
qed

theorem extractor_failed_candidate_witness:
  "indexOf (js ''{\"q\":\"[a]\"}'') 91 \<noteq> - 1 \<and>
   lastIndexOf (js ''{\"q\":\"[a]\"}'') 93 \<noteq> - 1 \<and>
   JSON_parse (jsonCandidate (js ''{\"q\":\"[a]\"}'')) = Inl SyntaxError \<and>
   cleanAndParseJSON (js ''{\"q\":\"[a]\"}'') = JArr []"
proof -
  have 1: "indexOf (js ''{\"q\":\"[a]\"}'') 91 \<noteq> - 1"
    by (simp add: str_eval)
  have 2: "lastIndexOf (js ''{\"q\":\"[a]\"}'') 93 \<noteq> - 1"
    by (simp add: lastIndexOf_def str_eval)
  have 3: "JSON_parse (jsonCandidate (js ''{\"q\":\"[a]\"}'')) = Inl SyntaxError"
    by (simp add: jsonCandidate_def lastIndexOf_def substring_def json_eval cong: weak_congs)
  from extractor_failed_candidate_gives_empty [OF 1 2 3] 1 2 3 show ?thesis
    by blast
qed

text \<open>
  Claim C10: the result of the extractor is not always an array. When a bracket is absent
  and the fence-stripped, trimmed text parses, the parsed value itself is returned; for
  the text \<^verbatim>\<open>5\<close> that is the number 5, and for an object literal, bare or inside a code
  fence, it is the object.
\<close>

theorem extractor_returns_non_array:
  "(text \<noteq> [] \<and> (indexOf text 91 = - 1 \<or> lastIndexOf text 93 = - 1) \<and>
     JSON_parse (cleanText text) = Inr v \<longrightarrow> cleanAndParseJSON text = v) \<and>
   cleanAndParseJSON (js ''5'') = JNum (Fin 5) \<and>
   cleanAndParseJSON (js ''{\"a\":1}'') = JObj [(js ''a'', JNum (Fin 1))] \<and>
   cleanAndParseJSON (js ''```json\<newline>{\"a\":1}\<newline>```'') = JObj [(js ''a'', JNum (Fin 1))]"
proof -
  have "cleanAndParseJSON text = v"
    if "text \<noteq> []" "indexOf text 91 = - 1 \<or> lastIndexOf text 93 = - 1"
      "JSON_parse (cleanText text) = Inr v"
    using that by (auto simp add: cleanAndParseJSON_def cleanAndParseJSON_try_def)
  moreover have "cleanAndParseJSON (js ''5'') = JNum (Fin 5)"
    by (simp add: extract_eval cong: weak_congs)
  moreover have "cleanAndParseJSON (js ''{\"a\":1}'') = JObj [(js ''a'', JNum (Fin 1))]"
    by (simp add: extract_eval cong: weak_congs)
  moreover have "cleanAndParseJSON (js ''```json\<newline>{\"a\":1}\<newline>```'')
      = JObj [(js ''a'', JNum (Fin 1))]"
    by (simp add: extract_eval cong: weak_congs)
  ultimately show ?thesis by blast
qed

theorem extractor_returns_non_array_witness:
  "js ''5'' \<noteq> [] \<and> indexOf (js ''5'') 91 = - 1 \<and>
   JSON_parse (cleanText (js ''5'')) = Inr (JNum (Fin 5)) \<and>
   cleanAndParseJSON (js ''5'') = JNum (Fin 5) \<and> \<not> isArray (Some (JNum (Fin 5)))"
proof -
  have 1: "js ''5'' \<noteq> []" by (simp add: str_eval)
  have 2: "indexOf (js ''5'') 91 = - 1" by (simp add: str_eval)
  have 3: "JSON_parse (cleanText (js ''5'')) = Inr (JNum (Fin 5))"
    by (simp add: cleanText_def json_eval cong: weak_congs)
  from extractor_returns_non_array [of "js ''5''" "JNum (Fin 5)"] 1 2 3 show ?thesis
    by simp
qed

section \<open>The markup simplifier is not idempotent\<close>

text \<open>
  Claim C2: \<open>simplify (simplify x) = simplify x\<close> for every string, because the second
  pass finds nothing left to transform. The step that converts a braced superscript
  \<^verbatim>\<open>^{...}\<close> to \<^verbatim>\<open>^...\<close> is one pass whose group \<^verbatim>\<open>[^}]*\<close> ends at the first
  closing brace: in \<^verbatim>\<open>x^{2^{3}}\<close> it unwraps the outer superscript only, and its own
  result \<^verbatim>\<open>x^2^{3}\<close> still holds a braced superscript, which a second application
  unwraps. The same step converts both superscripts of \<^verbatim>\<open>x^{2}^{3}\<close>, where they are
  not nested, in one application.
\<close>

theorem simplify_not_idempotent:
  "latexToSimple (js ''x^{2^{3}}'') = js ''x^2^{3}'' \<and>
   latexToSimple (js ''x^2^{3}'') = js ''x^2^3'' \<and>
   latexToSimple (latexToSimple (js ''x^{2^{3}}'')) = js ''x^2^3'' \<and>
   latexToSimple (latexToSimple (js ''x^{2^{3}}'')) \<noteq> latexToSimple (js ''x^{2^{3}}'') \<and>
   latexToSimple (js ''x^{2}^{3}'') = js ''x^2^3'' \<and>
   latexToSimple (latexToSimple (js ''x^{2}^{3}'')) = latexToSimple (js ''x^{2}^{3}'')"
  by (simp add: markup_eval)

section \<open>Properties of the question normalizer\<close>

subsection \<open>Conversions that succeed\<close>

lemma plain_toStr:
  "plain v \<Longrightarrow> \<exists>s. toStr ns v = Inr s"
  "plainAll xs \<Longrightarrow> \<exists>s. joinElems ns xs = Inr s"
proof (induction ns v and ns xs rule: toStr_joinElems.induct)
  case (8 ns x xs)
  from "8.prems" have px: "plain x" and pxs: "plainAll xs" by simp_all
  obtain s where s: "(if x = JNull then Inr [] else toStr ns x) = Inr s"
    using "8.IH"(1) px by (cases "x = JNull") auto
  show ?case
  proof (cases "xs = []")
    case True
    with s show ?thesis by simp
  next
    case False
    from "8.IH"(2) [OF s False pxs] obtain r where "joinElems ns xs = Inr r" by blast
    with s False show ?thesis by simp
  qed
qed auto

lemma toStr_plain:
  "toStr ns v = Inr s \<Longrightarrow> plain v"
  "joinElems ns xs = Inr s \<Longrightarrow> plainAll xs"
proof (induction ns v and ns xs arbitrary: s and s rule: toStr_joinElems.induct)
  case (8 ns x xs)
  then show ?case
    by (cases "x = JNull"; cases "xs = []") (auto split: sum.splits if_splits)
qed (auto split: if_splits)

lemma String_plain: "(case v of None \<Rightarrow> True | Some x \<Rightarrow> plain x) \<Longrightarrow> \<exists>s. String ns v = Inr s"
  using plain_toStr(1) by (cases v) (auto simp add: String_def)

lemma processText_plain:
  "(case v of None \<Rightarrow> True | Some x \<Rightarrow> plain x) \<Longrightarrow> \<exists>s. processText ns v = Inr s"
  using String_plain [of v ns] by (auto simp add: processText_def)

lemma mapE_length: "mapE f xs = Inr ys \<Longrightarrow> length ys = length xs"
  by (induction xs arbitrary: ys) (auto split: sum.splits)

lemma mapE_processText_plain:
  "plainAll xs \<Longrightarrow> \<exists>ys. mapE (\<lambda>opt. processText ns (Some opt)) xs = Inr ys"
proof (induction xs)
  case Nil
  then show ?case by simp
next
  case (Cons x xs)
  then obtain ys where "mapE (\<lambda>opt. processText ns (Some opt)) xs = Inr ys" by auto
  moreover from Cons.prems obtain s where "processText ns (Some x) = Inr s"
    using processText_plain [of "Some x" ns] by auto
  ultimately show ?case by simp
qed

lemma clampIdx_cases:
  assumes "0 < len"
  shows "clampIdx c len =
     (if numLess c (Fin 0) then Fin 0
      else if numGeq c (Fin (of_nat len)) then Fin (of_nat len - 1)
      else c)"
  using assms by (simp add: clampIdx_def numGeq_def)

lemma clampIdx_range:
  assumes "0 < len"
  shows "\<exists>i. clampIdx c len = Fin i \<and> 0 \<le> i \<and> i < of_nat len"
proof (cases c)
  case (Fin a)
  with assms show ?thesis
    by (auto simp add: clampIdx_def numGeq_def)
next
  case PosInf
  with assms show ?thesis by (simp add: clampIdx_def numGeq_def)
next
  case NegInf
  with assms show ?thesis by (simp add: clampIdx_def numGeq_def)
qed

lemma truthy_not_null: "truthy (questionTextOf q) \<Longrightarrow> q \<noteq> JNull"
  by (auto simp add: questionTextOf_def jsOr_def getProp_def)

lemma normalizeQuestion_accepts:
  assumes "truthy (questionTextOf q)"
    and "optionsListOf q = Some (JArr opts)"
    and "2 \<le> length opts"
    and "convertible q"
  shows "\<exists>cleanOptions qtxt ex.
     mapE (\<lambda>opt. processText ns (Some opt)) opts = Inr cleanOptions \<and>
     processText ns (questionTextOf q) = Inr qtxt \<and>
     processText ns (explanationOf q) = Inr ex \<and>
     normalizeQuestion ns now q index prefix =
       Inr (Some \<lparr> id_q = prefix @ js ''-'' @ showInt now @ js ''-'' @ showNat index,
                   text_q = qtxt, options = cleanOptions,
                   correctIndex = clampIdx (resolveCorrectIdx q) (length opts),
                   explanation = ex \<rparr>)"
proof -
  from assms(4) assms(2) have p: "plainAll opts"
    and pq: "case questionTextOf q of None \<Rightarrow> True | Some v \<Rightarrow> plain v"
    and pe: "case explanationOf q of None \<Rightarrow> True | Some v \<Rightarrow> plain v"
    by (simp_all add: convertible_def)
  from mapE_processText_plain [OF p] obtain cleanOptions
    where c: "mapE (\<lambda>opt. processText ns (Some opt)) opts = Inr cleanOptions" by blast
  from processText_plain [OF pq] obtain qtxt
    where t: "processText ns (questionTextOf q) = Inr qtxt" by blast
  from processText_plain [OF pe] obtain ex
    where e: "processText ns (explanationOf q) = Inr ex" by blast
  have l: "length cleanOptions = length opts" using c by (rule mapE_length)
  have "q \<noteq> JNull" using assms(1) by (rule truthy_not_null)
  with assms(1-3) c t e l
  have "normalizeQuestion ns now q index prefix =
       Inr (Some \<lparr> id_q = prefix @ js ''-'' @ showInt now @ js ''-'' @ showNat index,
                   text_q = qtxt, options = cleanOptions,
                   correctIndex = clampIdx (resolveCorrectIdx q) (length opts),
                   explanation = ex \<rparr>)"
    by (simp add: normalizeQuestion_def Let_def)
  with c t e show ?thesis by blast
qed

lemmas norm_eval = normalizeQuestion_def questionTextOf_def optionsListOf_def explanationOf_def
  getProp_def jsOr_def processText_def String_def resolveCorrectIdx_def clampIdx_def numGeq_def
  markup_eval

lemma normalizeQuestion_valid:
  assumes "truthy (questionTextOf q)"
    and "optionsListOf q = Some (JArr opts)"
    and "2 \<le> length opts"
    and "convertible q"
  shows "\<exists>r. normalizeQuestion ns now q index prefix = Inr (Some r) \<and>
           length (options r) = length opts \<and>
           (\<exists>i. correctIndex r = Fin i \<and> 0 \<le> i \<and> i < of_nat (length (options r)))"
proof -
  from normalizeQuestion_accepts [OF assms, of ns now index prefix]
  obtain cleanOptions qtxt ex where
    c: "mapE (\<lambda>opt. processText ns (Some opt)) opts = Inr cleanOptions" and
    n: "normalizeQuestion ns now q index prefix =
       Inr (Some \<lparr> id_q = prefix @ js ''-'' @ showInt now @ js ''-'' @ showNat index,
                   text_q = qtxt, options = cleanOptions,
                   correctIndex = clampIdx (resolveCorrectIdx q) (length opts),
                   explanation = ex \<rparr>)"
    by blast
  have l: "length cleanOptions = length opts" using c by (rule mapE_length)
  have "0 < length opts" by (rule less_le_trans [OF _ assms(3)]) simp
  from clampIdx_range [OF this, of "resolveCorrectIdx q"] n l show ?thesis
    by auto
qed

lemma showNat_0: "showNat 0 = js ''0''"
  by (simp add: showNat.simps js_Nil js_Cons)

lemma normalizeQuestion_SomeD:
  assumes "normalizeQuestion ns now q index prefix = Inr (Some r)"
  shows "2 \<le> length (options r) \<and>
         length (options r) = length (elements (optionsListOf q)) \<and>
         correctIndex r = clampIdx (resolveCorrectIdx q) (length (options r)) \<and>
         id_q r = prefix @ js ''-'' @ showInt now @ js ''-'' @ showNat index"
proof -
  from assms have v: "\<not> (\<not> truthy (questionTextOf q) \<or> \<not> isArray (optionsListOf q) \<or>
      length (elements (optionsListOf q)) < 2)" and nn: "q \<noteq> JNull"
    by (auto simp add: normalizeQuestion_def Let_def split: if_splits)
  from assms nn v obtain cleanOptions where
    c: "mapE (\<lambda>opt. processText ns (Some opt)) (elements (optionsListOf q)) = Inr cleanOptions"
    and o: "options r = cleanOptions"
    and i: "correctIndex r = clampIdx (resolveCorrectIdx q) (length cleanOptions)"
    and d: "id_q r = prefix @ js ''-'' @ showInt now @ js ''-'' @ showNat index"
    by (auto simp add: normalizeQuestion_def Let_def split: if_splits sum.splits)
  from c have "length cleanOptions = length (elements (optionsListOf q))"
    by (rule mapE_length)
  with v o i d show ?thesis by auto
qed

subsection \<open>Decimal digits and \<^verbatim>\<open>parseInt\<close>\<close>

lemma showNat_digits: "c \<in> set (showNat n) \<Longrightarrow> isDigit c"
proof (induction n arbitrary: c rule: showNat.induct)
  case (1 n)
  show ?case
  proof (cases "n < 10")
    case True
    with "1.prems" show ?thesis by (simp add: showNat.simps [of n] isDigit_def)
  next
    case False
    with "1.prems" have "c \<in> set (showNat (n div 10)) \<or> c = 48 + n mod 10"
      by (auto simp add: showNat.simps [of n])
    then show ?thesis
    proof
      assume "c \<in> set (showNat (n div 10))"
      with False "1.IH" show ?thesis by simp
    next
      assume "c = 48 + n mod 10"
      moreover have "n mod 10 < 10" by simp
      ultimately show ?thesis unfolding isDigit_def by linarith
    qed
  qed
qed

lemma showNat_nonempty: "showNat n \<noteq> []"
  by (simp add: showNat.simps [of n])

lemma digitsVal_snoc: "digitsVal (ds @ [d]) = 10 * digitsVal ds + (d - 48)"
  by (simp add: digitsVal_def)

lemma digitsVal_showNat: "digitsVal (showNat n) = n"
proof (induction n rule: showNat.induct)
  case (1 n)
  show ?case
  proof (cases "n < 10")
    case True
    then show ?thesis by (simp add: showNat.simps [of n] digitsVal_def)
  next
    case False
    with "1.IH" have "digitsVal (showNat (n div 10)) = n div 10" by simp
    with False show ?thesis
      by (simp add: showNat.simps [of n] digitsVal_snoc)
  qed
qed

lemma showNat_inj: "showNat m = showNat n \<Longrightarrow> m = n"
  by (metis digitsVal_showNat)

lemma startsWith_set: "startsWith s pat \<Longrightarrow> set pat \<subseteq> set s"
  unfolding startsWith_def by (metis set_take_subset)

lemma not_startsWith: "c \<in> set pat \<Longrightarrow> c \<notin> set s \<Longrightarrow> \<not> startsWith s pat"
  using startsWith_set by blast

lemma digit_not_space: "isDigit c \<Longrightarrow> \<not> isWhiteSpace c"
  by (auto simp add: isDigit_def isWhiteSpace_def)

lemma dropWhile_all_not: "(\<And>c. c \<in> set s \<Longrightarrow> \<not> P c) \<Longrightarrow> dropWhile P s = s"
  by (cases s) simp_all

lemma takeWhile_all: "(\<And>c. c \<in> set s \<Longrightarrow> P c) \<Longrightarrow> takeWhile P s = s"
  by (simp add: takeWhile_eq_all_conv)

lemma parseInt_digits:
  assumes "\<And>c. c \<in> set s \<Longrightarrow> isDigit c" and "s \<noteq> []"
  shows "parseInt s = Some (toNumber (of_nat (digitsVal s)))"
proof -
  have nd: "c \<notin> set s" if "\<not> isDigit c" for c using assms(1) that by blast
  have w: "dropWhile isWhiteSpace s = s"
    using assms(1) digit_not_space by (intro dropWhile_all_not) blast
  have m: "\<not> startsWith s (js ''-'')" "\<not> startsWith s (js ''+'')"
    "\<not> startsWith s (js ''0x'')" "\<not> startsWith s (js ''0X'')"
    by (rule not_startsWith [where c = 45], simp add: js_Nil js_Cons, rule nd, simp add: isDigit_def)
       (rule not_startsWith [where c = 43], simp add: js_Nil js_Cons, rule nd, simp add: isDigit_def,
        rule not_startsWith [where c = 120], simp add: js_Nil js_Cons, rule nd, simp add: isDigit_def,
        rule not_startsWith [where c = 88], simp add: js_Nil js_Cons, rule nd, simp add: isDigit_def)
  have t: "takeWhile isDigit s = s" using assms(1) by (rule takeWhile_all)
  show ?thesis
    unfolding parseInt_def Let_def w using m assms(2) by (simp add: t)
qed

lemma parseInt_showNat: "parseInt (showNat n) = Some (toNumber (of_nat n))"
  using parseInt_digits [of "showNat n"] showNat_digits showNat_nonempty
  by (simp add: digitsVal_showNat)

lemma no_zero_no_hex_prefix:
  assumes "48 \<notin> set u"
  shows "\<not> startsWith u (js ''0x'')" and "\<not> startsWith u (js ''0X'')"
  by (rule not_startsWith [where c = 48], simp add: js_Nil js_Cons, rule assms)+

lemma parseInt_no_digit:
  assumes "\<forall>c\<in>set s. \<not> isDigit c"
  shows "parseInt s = None"
proof -
  define s1 where "s1 = dropWhile isWhiteSpace s"
  define s2 where "s2 = (if startsWith s1 (js ''-'') \<or> startsWith s1 (js ''+'') then drop 1 s1 else s1)"
  have 1: "\<forall>c\<in>set s1. \<not> isDigit c"
    unfolding s1_def using assms by (meson set_dropWhileD)
  have 2: "\<forall>c\<in>set s2. \<not> isDigit c"
    unfolding s2_def using 1 by (auto dest: in_set_dropD)
  have "isDigit 48" by (simp add: isDigit_def)
  with 2 have z: "48 \<notin> set s2" by blast
  have t: "takeWhile isDigit s2 = []"
    using 2 by (cases s2) auto
  have "parseInt s =
     (let hex = (startsWith s2 (js ''0x'') \<or> startsWith s2 (js ''0X''));
          s3 = (if hex then drop 2 s2 else s2);
          z = takeWhile (if hex then isHexDigit else isDigit) s3;
          mathInt = int (if hex then hexVal z else digitsVal z)
      in if z = [] then None
         else Some (toNumber (of_int (if startsWith s1 (js ''-'') then - mathInt else mathInt))))"
    unfolding parseInt_def s1_def s2_def Let_def by (rule refl)
  then show ?thesis
    using no_zero_no_hex_prefix [OF z] t by (simp add: Let_def)
qed

lemma resolve_string:
  assumes "getProp q (js ''correctIndex'') = Some (JStr s)"
  shows "resolveCorrectIdx q =
     (case parseInt s of None \<Rightarrow> Fin 0 | Some v \<Rightarrow> v)"
  using assms by (auto simp add: resolveCorrectIdx_def split: option.splits)

lemma showNat_1: "showNat (Suc 0) = js ''1''"
  by (simp add: showNat.simps js_Nil js_Cons)

lemma showNat_2: "showNat 2 = js ''2''"
  by (simp add: showNat.simps js_Nil js_Cons)

subsection \<open>Identifiers\<close>

lemma showNat_no_dash: "45 \<notin> set (showNat n)"
  using showNat_digits [of 45 n] by (auto simp add: isDigit_def)

lemma after_last_dash:
  fixes d :: jsstring
  assumes "45 \<notin> set d"
  shows "rev (takeWhile (\<lambda>c. c \<noteq> 45) (rev (a @ [45] @ d))) = d"
proof -
  have h: "x \<noteq> 45" if "x \<in> set (rev d)" for x using assms that by auto
  have "takeWhile (\<lambda>c. c \<noteq> 45) (rev d @ 45 # rev a)
      = rev d @ takeWhile (\<lambda>c. c \<noteq> 45) (45 # rev a)"
    by (rule takeWhile_append2) (rule h)
  then show ?thesis by simp
qed

lemma ids_differ:
  assumes "a @ [45] @ showNat i = b @ [45] @ showNat j"
  shows "i = j"
proof -
  have "rev (takeWhile (\<lambda>c. c \<noteq> 45) (rev (a @ [45] @ showNat i)))
      = rev (takeWhile (\<lambda>c. c \<noteq> 45) (rev (b @ [45] @ showNat j)))"
    using assms by simp
  then have "showNat i = showNat j"
    by (simp only: after_last_dash [OF showNat_no_dash])
  then show ?thesis by (rule showNat_inj)
qed

lemma dash: "js ''-'' = [45]"
  by (simp add: js_Nil js_Cons)

lemma normalized_id:
  assumes "normalizeQuestion ns now q index prefix = Inr (Some r)"
  shows "id_q r = (prefix @ [45] @ showInt now) @ [45] @ showNat index"
  using normalizeQuestion_SomeD [OF assms] by (simp add: dash)

lemma batch_ids:
  assumes "mapE (\<lambda>(i, q). normalizeQuestion ns (clock i) q i prefix) (enumerate k xs) = Inr rs"
  shows "distinct (map id_q (List.map_filter (\<lambda>r. r) rs)) \<and>
         (\<forall>r\<in>set (List.map_filter (\<lambda>r. r) rs). \<exists>a i. k \<le> i \<and> id_q r = a @ [45] @ showNat i)"
  using assms
proof (induction xs arbitrary: k rs)
  case Nil
  then show ?case by (simp add: List.map_filter_simps)
next
  case (Cons x xs)
  from Cons.prems obtain r0 rs' where
    r0: "normalizeQuestion ns (clock k) x k prefix = Inr r0" and
    rs': "mapE (\<lambda>(i, q). normalizeQuestion ns (clock i) q i prefix) (enumerate (Suc k) xs) = Inr rs'" and
    rs: "rs = r0 # rs'"
    by (auto split: sum.splits)
  from Cons.IH [OF rs'] have
    d: "distinct (map id_q (List.map_filter (\<lambda>r. r) rs'))" and
    s: "\<forall>r\<in>set (List.map_filter (\<lambda>r. r) rs'). \<exists>a i. Suc k \<le> i \<and> id_q r = a @ [45] @ showNat i"
    by simp_all
  show ?case
  proof (cases r0)
    case None
    with d s rs show ?thesis by (auto simp add: List.map_filter_simps) (metis Suc_leD)
  next
    case (Some r)
    with r0 have idr: "id_q r = (prefix @ [45] @ showInt (clock k)) @ [45] @ showNat k"
      by (simp add: normalized_id)
    have "id_q r \<notin> set (map id_q (List.map_filter (\<lambda>r. r) rs'))"
    proof
      assume "id_q r \<in> set (map id_q (List.map_filter (\<lambda>r. r) rs'))"
      then obtain r' where r': "r' \<in> set (List.map_filter (\<lambda>r. r) rs')" and e: "id_q r' = id_q r"
        by auto
      from s r' obtain a i where i: "Suc k \<le> i" and ida: "id_q r' = a @ [45] @ showNat i" by blast
      from e idr ida have "a @ [45] @ showNat i = (prefix @ [45] @ showInt (clock k)) @ [45] @ showNat k"
        by simp
      then have "i = k" by (rule ids_differ)
      with i show False by simp
    qed
    moreover have "\<exists>a i. k \<le> i \<and> id_q r = a @ [45] @ showNat i"
      using idr by blast
    moreover have "\<forall>r\<in>set (List.map_filter (\<lambda>r. r) rs'). \<exists>a i. k \<le> i \<and> id_q r = a @ [45] @ showNat i"
      using s by (meson Suc_leD)
    ultimately show ?thesis using d rs Some by (simp add: List.map_filter_simps)
  qed
qed

lemma batch_distinct: "distinct (map id_q (questionsFromResponse ns clock prefix resp))"
proof -
  define rawData where "rawData = cleanAndParseJSON
      (case resp of None \<Rightarrow> js ''[]'' | Some t \<Rightarrow> (if t = [] then js ''[]'' else t))"
  show ?thesis
  proof (cases rawData)
    case (JArr xs)
    show ?thesis
    proof (cases "mapE (\<lambda>(i, q). normalizeQuestion ns (clock i) q i prefix) (enumerate 0 xs)")
      case (Inl e)
      with JArr show ?thesis
        by (simp add: questionsFromResponse_def rawData_def [symmetric])
    next
      case (Inr rs)
      from batch_ids [OF Inr] Inr JArr show ?thesis
        by (simp add: questionsFromResponse_def rawData_def [symmetric])
    qed
  qed (simp_all add: questionsFromResponse_def rawData_def [symmetric])
qed

subsection \<open>The claims about the normalizer\<close>

text \<open>
  Claim C4: a candidate whose question text is only under the key \<^verbatim>\<open>Question\<close> and whose
  options, at least 2, are only under the key \<^verbatim>\<open>Answers\<close> is normalized. The code
  announces that it handles the case of the keys, and it reads the capitalised
  \<^verbatim>\<open>Question\<close>, \<^verbatim>\<open>Options\<close> and \<^verbatim>\<open>Explanation\<close> beside the lower-case keys; for
  the alias \<^verbatim>\<open>answers\<close> the capitalised form is missing from the list
  \<^verbatim>\<open>q.options || q.Options || q.choices || q.answers\<close>. The candidate of the claim
  resolves no options and is rejected, while the same candidate with \<^verbatim>\<open>Options\<close> or
  with \<^verbatim>\<open>answers\<close> is normalized.
\<close>

theorem normalize_Answers_rejected:
  "\<forall>ns now clock.
     cleanAndParseJSON (js ''[{\"Question\":\"Q\",\"Answers\":[\"A\",\"B\"]}]'')
       = JArr [JObj [(js ''Question'', JStr (js ''Q'')),
            (js ''Answers'', JArr [JStr (js ''A''), JStr (js ''B'')])]] \<and>
     getProp (JObj [(js ''Question'', JStr (js ''Q'')),
        (js ''Answers'', JArr [JStr (js ''A''), JStr (js ''B'')])]) (js ''Answers'')
       = Some (JArr [JStr (js ''A''), JStr (js ''B'')]) \<and>
     questionTextOf (JObj [(js ''Question'', JStr (js ''Q'')),
        (js ''Answers'', JArr [JStr (js ''A''), JStr (js ''B'')])]) = Some (JStr (js ''Q'')) \<and>
     optionsListOf (JObj [(js ''Question'', JStr (js ''Q'')),
        (js ''Answers'', JArr [JStr (js ''A''), JStr (js ''B'')])]) = None \<and>
     normalizeQuestion ns now (JObj [(js ''Question'', JStr (js ''Q'')),
        (js ''Answers'', JArr [JStr (js ''A''), JStr (js ''B'')])]) 0 (js ''battle'') = Inr None \<and>
     questionsFromResponse ns clock (js ''battle'')
       (Some (js ''[{\"Question\":\"Q\",\"Answers\":[\"A\",\"B\"]}]'')) = [] \<and>
     normalizeQuestion ns now (JObj [(js ''Question'', JStr (js ''Q'')),
        (js ''Options'', JArr [JStr (js ''A''), JStr (js ''B'')])]) 0 (js ''battle'')
       = Inr (Some \<lparr> id_q = js ''battle-'' @ showInt now @ js ''-0'',
            text_q = js ''Q'', options = [js ''A'', js ''B''], correctIndex = Fin 0,
            explanation = js ''No explanation provided.'' \<rparr>) \<and>
     normalizeQuestion ns now (JObj [(js ''Question'', JStr (js ''Q'')),
        (js ''answers'', JArr [JStr (js ''A''), JStr (js ''B'')])]) 0 (js ''battle'')
       = Inr (Some \<lparr> id_q = js ''battle-'' @ showInt now @ js ''-0'',
            text_q = js ''Q'', options = [js ''A'', js ''B''], correctIndex = Fin 0,
            explanation = js ''No explanation provided.'' \<rparr>)"
proof (intro allI conjI)
  fix ns :: "jsnum \<Rightarrow> jsstring" and now :: int and clock :: "nat \<Rightarrow> int"
  show e: "cleanAndParseJSON (js ''[{\"Question\":\"Q\",\"Answers\":[\"A\",\"B\"]}]'')
       = JArr [JObj [(js ''Question'', JStr (js ''Q'')),
            (js ''Answers'', JArr [JStr (js ''A''), JStr (js ''B'')])]]"
    by (simp add: extract_eval cong: weak_congs)
  show n: "normalizeQuestion ns now (JObj [(js ''Question'', JStr (js ''Q'')),
        (js ''Answers'', JArr [JStr (js ''A''), JStr (js ''B'')])]) 0 (js ''battle'') = Inr None"
    for now
    by (simp add: norm_eval)
  have ne: "js ''[{\"Question\":\"Q\",\"Answers\":[\"A\",\"B\"]}]'' \<noteq> []"
    by (simp add: js_Cons)
  show "questionsFromResponse ns clock (js ''battle'')
       (Some (js ''[{\"Question\":\"Q\",\"Answers\":[\"A\",\"B\"]}]'')) = []"
    unfolding questionsFromResponse_def
    by (simp add: ne e n List.map_filter_simps enumerate_simps)
  show "normalizeQuestion ns now (JObj [(js ''Question'', JStr (js ''Q'')),
        (js ''Options'', JArr [JStr (js ''A''), JStr (js ''B'')])]) 0 (js ''battle'')
       = Inr (Some \<lparr> id_q = js ''battle-'' @ showInt now @ js ''-0'',
            text_q = js ''Q'', options = [js ''A'', js ''B''], correctIndex = Fin 0,
            explanation = js ''No explanation provided.'' \<rparr>)"
    by (simp add: norm_eval showNat_0 cong: weak_congs)
  show "normalizeQuestion ns now (JObj [(js ''Question'', JStr (js ''Q'')),
        (js ''answers'', JArr [JStr (js ''A''), JStr (js ''B'')])]) 0 (js ''battle'')
       = Inr (Some \<lparr> id_q = js ''battle-'' @ showInt now @ js ''-0'',
            text_q = js ''Q'', options = [js ''A'', js ''B''], correctIndex = Fin 0,
            explanation = js ''No explanation provided.'' \<rparr>)"
    by (simp add: norm_eval showNat_0 cong: weak_congs)
qed (simp_all add: norm_eval)

theorem normalize_Answers_rejected_witness:
  "\<forall>ns now clock.
     normalizeQuestion ns now (JObj [(js ''Question'', JStr (js ''Q'')),
        (js ''Answers'', JArr [JStr (js ''A''), JStr (js ''B'')])]) 0 (js ''battle'') = Inr None \<and>
     questionsFromResponse ns clock (js ''battle'')
       (Some (js ''[{\"Question\":\"Q\",\"Answers\":[\"A\",\"B\"]}]'')) = []"
  using normalize_Answers_rejected by blast

text \<open>
  Claim C5, as stated: every candidate with a truthy question text and an options array of
  length at least 2 gives a question. An option that is an object with a member
  \<^verbatim>\<open>toString\<close> of its own makes \<^verbatim>\<open>String(opt)\<close> raise a TypeError, which leaves
  \<open>normalizeQuestion\<close> as an exception.
\<close>

theorem normalize_toString_counterexample:
  "\<forall>ns now.
     truthy (questionTextOf (JObj [(js ''question'', JStr (js ''Q'')),
        (js ''options'', JArr [JStr (js ''A''), JObj [(js ''toString'', JNum (Fin 1))]])])) \<and>
     optionsListOf (JObj [(js ''question'', JStr (js ''Q'')),
        (js ''options'', JArr [JStr (js ''A''), JObj [(js ''toString'', JNum (Fin 1))]])])
       = Some (JArr [JStr (js ''A''), JObj [(js ''toString'', JNum (Fin 1))]]) \<and>
     normalizeQuestion ns now (JObj [(js ''question'', JStr (js ''Q'')),
        (js ''options'', JArr [JStr (js ''A''), JObj [(js ''toString'', JNum (Fin 1))]])])
        0 (js ''battle'') = Inl TypeError"
  by (simp add: norm_eval cong: weak_congs)

text \<open>
  Claim C5, amended: every candidate with a truthy question text and an options array of
  length at least 2, whose question text, options and explanation convert to strings,
  gives a question whose options list has the length of the input array and whose index
  satisfies \<open>0 \<le> correctIndex < options.length\<close>.
\<close>

theorem normalize_valid_candidate:
  assumes "truthy (questionTextOf q)"
    and "optionsListOf q = Some (JArr opts)"
    and "2 \<le> length opts"
    and "convertible q"
  shows "\<exists>r. normalizeQuestion ns now q index prefix = Inr (Some r) \<and>
           length (options r) = length opts \<and>
           (\<exists>i. correctIndex r = Fin i \<and> 0 \<le> i \<and> i < of_nat (length (options r)))"
  using assms by (rule normalizeQuestion_valid)

theorem normalize_valid_candidate_witness:
  "\<forall>ns now.
     truthy (questionTextOf (JObj [(js ''question'', JStr (js ''Q1'')),
        (js ''options'', JArr [JStr (js ''A''), JStr (js ''B'')]), (js ''correctIndex'', JNum (Fin 5))])) \<and>
     convertible (JObj [(js ''question'', JStr (js ''Q1'')),
        (js ''options'', JArr [JStr (js ''A''), JStr (js ''B'')]), (js ''correctIndex'', JNum (Fin 5))]) \<and>
     (\<exists>r. normalizeQuestion ns now (JObj [(js ''question'', JStr (js ''Q1'')),
        (js ''options'', JArr [JStr (js ''A''), JStr (js ''B'')]), (js ''correctIndex'', JNum (Fin 5))])
        0 (js ''battle'') = Inr (Some r) \<and>
        length (options r) = 2 \<and>
        (\<exists>i. correctIndex r = Fin i \<and> 0 \<le> i \<and> i < 2))"
proof (intro allI)
  fix ns now
  let ?q = "JObj [(js ''question'', JStr (js ''Q1'')),
        (js ''options'', JArr [JStr (js ''A''), JStr (js ''B'')]), (js ''correctIndex'', JNum (Fin 5))]"
  have 1: "truthy (questionTextOf ?q)" by (simp add: norm_eval)
  have 2: "optionsListOf ?q = Some (JArr [JStr (js ''A''), JStr (js ''B'')])" by (simp add: norm_eval)
  have 3: "2 \<le> length [JStr (js ''A''), JStr (js ''B'')]" by simp
  have 4: "convertible ?q" by (simp add: convertible_def norm_eval)
  from normalize_valid_candidate [OF 1 2 3 4, of ns now 0 "js ''battle''"] 1 4
  show "truthy (questionTextOf ?q) \<and> convertible ?q \<and>
     (\<exists>r. normalizeQuestion ns now ?q 0 (js ''battle'') = Inr (Some r) \<and>
        length (options r) = 2 \<and>
        (\<exists>i. correctIndex r = Fin i \<and> 0 \<le> i \<and> i < 2))"
    by auto
qed

text \<open>
  Claim C6, as stated: every raw candidate in which no alias key gives a question text, or
  whose options value is not an array, or whose options array has fewer than 2 elements,
  is rejected with the result \<^verbatim>\<open>null\<close>. The candidates are the elements of the parsed
  array, and such an element can be the value \<^verbatim>\<open>null\<close>. No alias key gives a value
  there, but the first property read \<^verbatim>\<open>q.question\<close> raises a TypeError before the
  validation is reached: the call returns nothing, the exception is caught by the
  generation function, and the questions of the whole response are lost.
\<close>

theorem normalize_null_counterexample:
  "\<forall>ns clock prefix.
     cleanAndParseJSON (js ''[null]'') = JArr [JNull] \<and>
     \<not> truthy (questionTextOf JNull) \<and>
     \<not> isArray (optionsListOf JNull) \<and>
     normalizeQuestion ns (clock 0) JNull 0 prefix = Inl TypeError \<and>
     normalizeQuestion ns (clock 0) JNull 0 prefix \<noteq> Inr None \<and>
     questionsFromResponse ns clock prefix (Some (js ''[null]'')) = [] \<and>
     questionsFromResponse ns clock prefix
       (Some (js ''[{\"question\":\"Q1\",\"options\":[\"A\",\"B\"],\"correctIndex\":5},null]'')) = []"
proof (intro allI)
  fix ns :: "jsnum \<Rightarrow> jsstring" and clock :: "nat \<Rightarrow> int" and prefix :: jsstring
  have e: "cleanAndParseJSON (js ''[null]'') = JArr [JNull]"
    by (simp add: extract_eval cong: weak_congs)
  have t: "\<not> truthy (questionTextOf JNull)" "\<not> isArray (optionsListOf JNull)"
    by (simp_all add: norm_eval)
  have n: "normalizeQuestion ns (clock i) JNull i prefix = Inl TypeError" for i
    by (simp add: normalizeQuestion_def)
  have ne: "js ''[null]'' \<noteq> []"
    "js ''[{\"question\":\"Q1\",\"options\":[\"A\",\"B\"],\"correctIndex\":5},null]'' \<noteq> []"
    by (simp_all add: js_Cons)
  have q1: "questionsFromResponse ns clock prefix (Some (js ''[null]'')) = []"
    unfolding questionsFromResponse_def
    by (simp add: ne e n enumerate_simps)
  have e2: "cleanAndParseJSON (js ''[{\"question\":\"Q1\",\"options\":[\"A\",\"B\"],\"correctIndex\":5},null]'')
    = JArr [JObj [(js ''question'', JStr (js ''Q1'')),
        (js ''options'', JArr [JStr (js ''A''), JStr (js ''B'')]),
        (js ''correctIndex'', JNum (Fin 5))], JNull]"
    by (simp add: extract_eval cong: weak_congs)
  have n2: "normalizeQuestion ns (clock 0) (JObj [(js ''question'', JStr (js ''Q1'')),
        (js ''options'', JArr [JStr (js ''A''), JStr (js ''B'')]),
        (js ''correctIndex'', JNum (Fin 5))]) 0 prefix
     = Inr (Some \<lparr> id_q = prefix @ js ''-'' @ showInt (clock 0) @ js ''-0'',
          text_q = js ''Q1'', options = [js ''A'', js ''B''], correctIndex = Fin 1,
          explanation = js ''No explanation provided.'' \<rparr>)"
    by (simp add: norm_eval showNat_0 cong: weak_congs)
  have q2: "questionsFromResponse ns clock prefix
       (Some (js ''[{\"question\":\"Q1\",\"options\":[\"A\",\"B\"],\"correctIndex\":5},null]'')) = []"
    unfolding questionsFromResponse_def
    by (simp add: ne e2 n2 n enumerate_simps)
  from n [of 0] have x: "normalizeQuestion ns (clock 0) JNull 0 prefix \<noteq> Inr None" by simp
  from e t n [of 0] x q1 q2
  show "cleanAndParseJSON (js ''[null]'') = JArr [JNull] \<and>
     \<not> truthy (questionTextOf JNull) \<and>
     \<not> isArray (optionsListOf JNull) \<and>
     normalizeQuestion ns (clock 0) JNull 0 prefix = Inl TypeError \<and>
     normalizeQuestion ns (clock 0) JNull 0 prefix \<noteq> Inr None \<and>
     questionsFromResponse ns clock prefix (Some (js ''[null]'')) = [] \<and>
     questionsFromResponse ns clock prefix
       (Some (js ''[{\"question\":\"Q1\",\"options\":[\"A\",\"B\"],\"correctIndex\":5},null]'')) = []"
    by blast
qed

text \<open>
  Claim C6, amended: every raw candidate other than the value \<^verbatim>\<open>null\<close>, a record or
  not, in which no alias key gives a truthy question text, or whose options value is not
  an array, or whose options array has fewer than 2 elements, is rejected: the result is
  \<^verbatim>\<open>null\<close>.
\<close>

theorem normalize_rejects:
  assumes "q \<noteq> JNull"
    and "(\<not> truthy (getProp q (js ''question'')) \<and>
           \<not> truthy (getProp q (js ''Question'')) \<and>
           \<not> truthy (getProp q (js ''text'')) \<and>
           \<not> truthy (getProp q (js ''query''))) \<or>
         \<not> isArray (optionsListOf q) \<or>
         length (elements (optionsListOf q)) < 2"
  shows "normalizeQuestion ns now q index prefix = Inr None"
proof -
  have "\<not> truthy (questionTextOf q)"
    if "\<not> truthy (getProp q (js ''question''))"
      "\<not> truthy (getProp q (js ''Question''))"
      "\<not> truthy (getProp q (js ''text''))" "\<not> truthy (getProp q (js ''query''))"
    using that by (simp add: questionTextOf_def jsOr_def)
  with assms show ?thesis
    by (auto simp add: normalizeQuestion_def Let_def)
qed

theorem normalize_rejects_witness:
  "\<forall>ns now.
     \<not> truthy (getProp (JObj [(js ''options'', JArr [JStr (js ''A''), JStr (js ''B'')])]) (js ''question'')) \<and>
     normalizeQuestion ns now (JObj [(js ''options'', JArr [JStr (js ''A''), JStr (js ''B'')])])
        0 (js ''battle'') = Inr None \<and>
     length (elements (optionsListOf (JObj [(js ''question'', JStr (js ''Q'')),
        (js ''options'', JArr [JStr (js ''A'')])]))) < 2 \<and>
     normalizeQuestion ns now (JObj [(js ''question'', JStr (js ''Q'')),
        (js ''options'', JArr [JStr (js ''A'')])]) 0 (js ''battle'') = Inr None \<and>
     \<not> isArray (optionsListOf (JObj [(js ''question'', JStr (js ''Q'')),
        (js ''options'', JStr (js ''A, B''))])) \<and>
     normalizeQuestion ns now (JObj [(js ''question'', JStr (js ''Q'')),
        (js ''options'', JStr (js ''A, B''))]) 0 (js ''battle'') = Inr None \<and>
     JStr (js ''Q'') \<noteq> JNull \<and>
     \<not> isArray (optionsListOf (JStr (js ''Q''))) \<and>
     normalizeQuestion ns now (JStr (js ''Q'')) 0 (js ''battle'') = Inr None"
proof (intro allI)
  fix ns now
  let ?q1 = "JObj [(js ''options'', JArr [JStr (js ''A''), JStr (js ''B'')])]"
  let ?q2 = "JObj [(js ''question'', JStr (js ''Q'')), (js ''options'', JArr [JStr (js ''A'')])]"
  let ?q3 = "JObj [(js ''question'', JStr (js ''Q'')), (js ''options'', JStr (js ''A, B''))]"
  let ?q4 = "JStr (js ''Q'')"
  have 1: "\<not> truthy (getProp ?q1 (js ''question'')) \<and> \<not> truthy (getProp ?q1 (js ''Question'')) \<and>
          \<not> truthy (getProp ?q1 (js ''text'')) \<and> \<not> truthy (getProp ?q1 (js ''query''))"
    by (simp add: getProp_def js_Nil js_Cons)
  have 2: "length (elements (optionsListOf ?q2)) < 2" by (simp add: norm_eval)
  have 3: "\<not> isArray (optionsListOf ?q3)" by (simp add: norm_eval)
  have 4: "\<not> isArray (optionsListOf ?q4)" by (simp add: norm_eval)
  have d: "?q1 \<noteq> JNull" "?q2 \<noteq> JNull" "?q3 \<noteq> JNull" "?q4 \<noteq> JNull" by simp_all
  have n1: "normalizeQuestion ns now ?q1 0 (js ''battle'') = Inr None"
    using 1 by (intro normalize_rejects [OF d(1)]) blast
  have n2: "normalizeQuestion ns now ?q2 0 (js ''battle'') = Inr None"
    using 2 by (intro normalize_rejects [OF d(2)]) blast
  have n3: "normalizeQuestion ns now ?q3 0 (js ''battle'') = Inr None"
    using 3 by (intro normalize_rejects [OF d(3)]) blast
  have n4: "normalizeQuestion ns now ?q4 0 (js ''battle'') = Inr None"
    using 4 by (intro normalize_rejects [OF d(4)]) blast
  from 1 2 3 4 d(4) n1 n2 n3 n4
  show "\<not> truthy (getProp ?q1 (js ''question'')) \<and>
     normalizeQuestion ns now ?q1 0 (js ''battle'') = Inr None \<and>
     length (elements (optionsListOf ?q2)) < 2 \<and>
     normalizeQuestion ns now ?q2 0 (js ''battle'') = Inr None \<and>
     \<not> isArray (optionsListOf ?q3) \<and>
     normalizeQuestion ns now ?q3 0 (js ''battle'') = Inr None \<and>
     ?q4 \<noteq> JNull \<and>
     \<not> isArray (optionsListOf ?q4) \<and>
     normalizeQuestion ns now ?q4 0 (js ''battle'') = Inr None"
    by blast
qed

text \<open>
  Claim C7, as stated: for an accepted candidate a resolved index outside
  \<open>[0, options.length - 1]\<close> is clamped into that range and never causes a rejection; in
  particular the response text of the example gives exactly one question, with index 1.
  The two comparisons of the clamp are \<^verbatim>\<open>correctIdx < 0\<close> and
  \<^verbatim>\<open>correctIdx >= cleanOptions.length\<close>, and nothing rounds the index: the index
  \<open>1.5\<close> of a candidate with two options lies above the last position 1 and below the
  length 2, and is returned as it is.
\<close>

theorem fractional_index_counterexample:
  "\<forall>ns clock prefix.
     resolveCorrectIdx (JObj [(js ''question'', JStr (js ''Q1'')),
        (js ''options'', JArr [JStr (js ''A''), JStr (js ''B'')]),
        (js ''correctIndex'', JNum (Fin (3 / 2)))]) = Fin (3 / 2) \<and>
     (of_nat (length [js ''A'', js ''B'']) - 1 :: rat) < 3 / 2 \<and>
     questionsFromResponse ns clock prefix
       (Some (js ''[{\"question\":\"Q1\",\"options\":[\"A\",\"B\"],\"correctIndex\":1.5}]''))
     = [\<lparr> id_q = prefix @ js ''-'' @ showInt (clock 0) @ js ''-0'',
          text_q = js ''Q1'', options = [js ''A'', js ''B''], correctIndex = Fin (3 / 2),
          explanation = js ''No explanation provided.'' \<rparr>]"
proof (intro allI conjI)
  show "resolveCorrectIdx (JObj [(js ''question'', JStr (js ''Q1'')),
        (js ''options'', JArr [JStr (js ''A''), JStr (js ''B'')]),
        (js ''correctIndex'', JNum (Fin (3 / 2)))]) = Fin (3 / 2)"
    by (simp add: resolveCorrectIdx_def getProp_def js_Nil js_Cons)
next
  show "(of_nat (length [js ''A'', js ''B'']) - 1 :: rat) < 3 / 2" by simp
next
  fix ns :: "jsnum \<Rightarrow> jsstring" and clock :: "nat \<Rightarrow> int" and prefix :: jsstring
  have e: "cleanAndParseJSON (js ''[{\"question\":\"Q1\",\"options\":[\"A\",\"B\"],\"correctIndex\":1.5}]'')
    = JArr [JObj [(js ''question'', JStr (js ''Q1'')),
        (js ''options'', JArr [JStr (js ''A''), JStr (js ''B'')]),
        (js ''correctIndex'', JNum (Fin (3 / 2)))]]"
    by (simp add: extract_eval toNumber_3_2 cong: weak_congs)
  have n: "normalizeQuestion ns (clock 0) (JObj [(js ''question'', JStr (js ''Q1'')),
        (js ''options'', JArr [JStr (js ''A''), JStr (js ''B'')]),
        (js ''correctIndex'', JNum (Fin (3 / 2)))]) 0 prefix
     = Inr (Some \<lparr> id_q = prefix @ js ''-'' @ showInt (clock 0) @ js ''-0'',
          text_q = js ''Q1'', options = [js ''A'', js ''B''], correctIndex = Fin (3 / 2),
          explanation = js ''No explanation provided.'' \<rparr>)"
    by (simp add: norm_eval showNat_0 cong: weak_congs)
  have ne: "js ''[{\"question\":\"Q1\",\"options\":[\"A\",\"B\"],\"correctIndex\":1.5}]'' \<noteq> []"
    by (simp add: js_Cons)
  show "questionsFromResponse ns clock prefix
       (Some (js ''[{\"question\":\"Q1\",\"options\":[\"A\",\"B\"],\"correctIndex\":1.5}]''))
     = [\<lparr> id_q = prefix @ js ''-'' @ showInt (clock 0) @ js ''-0'',
          text_q = js ''Q1'', options = [js ''A'', js ''B''], correctIndex = Fin (3 / 2),
          explanation = js ''No explanation provided.'' \<rparr>]"
    unfolding questionsFromResponse_def
    by (simp add: ne e n List.map_filter_simps enumerate_simps)
qed

text \<open>
  Claim C7, amended: for an accepted candidate a resolved index that is an integer and lies
  outside \<open>[0, options.length - 1]\<close> is clamped into that range, an integer below 0 to 0
  and one above the last position to the last position, while an integer in the range is
  kept; in general the result is 0 for an index below 0, \<open>options.length - 1\<close> for one
  that is at least \<open>options.length\<close>, and the index itself otherwise. The index never
  causes a rejection: a candidate that passes the validation of the question text and the
  options is never answered by \<^verbatim>\<open>null\<close>. The response text of the example, which is the
  text that the string literal denotes, gives exactly one question, with index 1.
\<close>

theorem normalize_clamps_index:
  "(normalizeQuestion ns now q index prefix = Inr (Some r) \<and>
      resolveCorrectIdx q = Fin (of_int k) \<longrightarrow>
      (k < 0 \<longrightarrow> correctIndex r = Fin 0) \<and>
      (int (length (options r)) - 1 < k \<longrightarrow>
         correctIndex r = Fin (of_int (int (length (options r)) - 1))) \<and>
      (0 \<le> k \<and> k \<le> int (length (options r)) - 1 \<longrightarrow> correctIndex r = Fin (of_int k)) \<and>
      (\<exists>j. correctIndex r = Fin (of_int j) \<and> 0 \<le> j \<and> j \<le> int (length (options r)) - 1)) \<and>
   (normalizeQuestion ns now q index prefix = Inr (Some r) \<longrightarrow>
      correctIndex r =
        (if numLess (resolveCorrectIdx q) (Fin 0) then Fin 0
         else if numGeq (resolveCorrectIdx q) (Fin (of_nat (length (options r))))
         then Fin (of_nat (length (options r)) - 1)
         else resolveCorrectIdx q)) \<and>
   (truthy (questionTextOf q) \<and> isArray (optionsListOf q) \<and>
      2 \<le> length (elements (optionsListOf q)) \<longrightarrow>
      normalizeQuestion ns now q index prefix \<noteq> Inr None) \<and>
   questionsFromResponse ns clock prefix
     (Some (js ''Here you go:\<newline>```json\<newline>[{\"question\":\"Q1\",\"options\":[\"A\",\"B\"],\"correctIndex\":5}]\<newline>```''))
     = [\<lparr> id_q = prefix @ js ''-'' @ showInt (clock 0) @ js ''-0'',
          text_q = js ''Q1'', options = [js ''A'', js ''B''], correctIndex = Fin 1,
          explanation = js ''No explanation provided.'' \<rparr>]"
proof -
  have formula: "correctIndex r =
        (if numLess (resolveCorrectIdx q) (Fin 0) then Fin 0
         else if numGeq (resolveCorrectIdx q) (Fin (of_nat (length (options r))))
         then Fin (of_nat (length (options r)) - 1)
         else resolveCorrectIdx q)"
    and len: "2 \<le> length (options r)"
    if a: "normalizeQuestion ns now q index prefix = Inr (Some r)"
  proof -
    from normalizeQuestion_SomeD [OF a]
    have l: "2 \<le> length (options r)"
      and i: "correctIndex r = clampIdx (resolveCorrectIdx q) (length (options r))"
      by simp_all
    have "0 < length (options r)" by (rule less_le_trans [OF _ l]) simp
    from clampIdx_cases [OF this] i
    show "correctIndex r =
        (if numLess (resolveCorrectIdx q) (Fin 0) then Fin 0
         else if numGeq (resolveCorrectIdx q) (Fin (of_nat (length (options r))))
         then Fin (of_nat (length (options r)) - 1)
         else resolveCorrectIdx q)"
      by simp
    show "2 \<le> length (options r)" by (rule l)
  qed
  have integer: "(k < 0 \<longrightarrow> correctIndex r = Fin 0) \<and>
      (int (length (options r)) - 1 < k \<longrightarrow>
         correctIndex r = Fin (of_int (int (length (options r)) - 1))) \<and>
      (0 \<le> k \<and> k \<le> int (length (options r)) - 1 \<longrightarrow> correctIndex r = Fin (of_int k)) \<and>
      (\<exists>j. correctIndex r = Fin (of_int j) \<and> 0 \<le> j \<and> j \<le> int (length (options r)) - 1)"
    if a: "normalizeQuestion ns now q index prefix = Inr (Some r)"
      and k: "resolveCorrectIdx q = Fin (of_int k)"
  proof -
    let ?n = "int (length (options r))"
    have n: "(of_nat (length (options r)) :: rat) = of_int ?n" by simp
    have c: "correctIndex r =
        (if k < 0 then Fin 0 else if ?n \<le> k then Fin (of_int (?n - 1)) else Fin (of_int k))"
    proof -
      have l: "numLess (Fin (of_int k)) (Fin 0) \<longleftrightarrow> k < 0" by simp
      have g: "numGeq (Fin (of_int k)) (Fin (of_int ?n)) \<longleftrightarrow> ?n \<le> k"
        unfolding numGeq_def numLess.simps jsnum.inject of_int_eq_iff of_int_less_iff
        by auto
      have d: "(of_int ?n - 1 :: rat) = of_int (?n - 1)" by simp
      show ?thesis
        unfolding formula [OF a] k n l g d by (rule refl)
    qed
    from len [OF a] have z: "0 \<le> ?n - 1" by arith
    have r: "?n - 1 \<le> ?n - 1" and o: "(0::int) \<le> 0" by simp_all
    show ?thesis
    proof (intro conjI impI)
      assume "k < 0" then show "correctIndex r = Fin 0" by (simp add: c)
    next
      assume "?n - 1 < k"
      then have "\<not> k < 0" "?n \<le> k" using z by arith+
      then show "correctIndex r = Fin (of_int (?n - 1))" by (simp only: c if_True if_False)
    next
      assume "0 \<le> k \<and> k \<le> ?n - 1"
      then have "\<not> k < 0" "\<not> ?n \<le> k" by arith+
      then show "correctIndex r = Fin (of_int k)" by (simp only: c if_False)
    next
      show "\<exists>j. correctIndex r = Fin (of_int j) \<and> 0 \<le> j \<and> j \<le> ?n - 1"
      proof (cases "k < 0")
        case True
        then have "correctIndex r = Fin (of_int 0)" by (simp add: c)
        with o z show ?thesis by blast
      next
        case False
        show ?thesis
        proof (cases "?n \<le> k")
          case True
          with False have "correctIndex r = Fin (of_int (?n - 1))" by (simp only: c if_True if_False)
          with z r show ?thesis by blast
        next
          case n: False
          with False have "correctIndex r = Fin (of_int k)" by (simp only: c if_False)
          moreover from False n have "0 \<le> k" "k \<le> ?n - 1" by arith+
          ultimately show ?thesis by blast
        qed
      qed
    qed
  qed
  have accepted: "normalizeQuestion ns now q index prefix \<noteq> Inr None"
    if "truthy (questionTextOf q) \<and> isArray (optionsListOf q) \<and>
      2 \<le> length (elements (optionsListOf q))"
    using that truthy_not_null [of q]
    by (auto simp add: normalizeQuestion_def Let_def split: sum.splits)
  have e: "cleanAndParseJSON (js ''Here you go:\<newline>```json\<newline>[{\"question\":\"Q1\",\"options\":[\"A\",\"B\"],\"correctIndex\":5}]\<newline>```'')
    = JArr [JObj [(js ''question'', JStr (js ''Q1'')),
        (js ''options'', JArr [JStr (js ''A''), JStr (js ''B'')]),
        (js ''correctIndex'', JNum (Fin 5))]]"
    by (simp add: extract_eval cong: weak_congs)
  have n: "normalizeQuestion ns (clock 0) (JObj [(js ''question'', JStr (js ''Q1'')),
        (js ''options'', JArr [JStr (js ''A''), JStr (js ''B'')]),
        (js ''correctIndex'', JNum (Fin 5))]) 0 prefix
     = Inr (Some \<lparr> id_q = prefix @ js ''-'' @ showInt (clock 0) @ js ''-0'',
          text_q = js ''Q1'', options = [js ''A'', js ''B''], correctIndex = Fin 1,
          explanation = js ''No explanation provided.'' \<rparr>)"
    by (simp add: norm_eval showNat_0 cong: weak_congs)
  have ne: "js ''Here you go:\<newline>```json\<newline>[{\"question\":\"Q1\",\"options\":[\"A\",\"B\"],\"correctIndex\":5}]\<newline>```'' \<noteq> []"
    by (simp add: js_Cons)
  have example: "questionsFromResponse ns clock prefix
     (Some (js ''Here you go:\<newline>```json\<newline>[{\"question\":\"Q1\",\"options\":[\"A\",\"B\"],\"correctIndex\":5}]\<newline>```''))
     = [\<lparr> id_q = prefix @ js ''-'' @ showInt (clock 0) @ js ''-0'',
          text_q = js ''Q1'', options = [js ''A'', js ''B''], correctIndex = Fin 1,
          explanation = js ''No explanation provided.'' \<rparr>]"
    unfolding questionsFromResponse_def
    by (simp add: ne e n List.map_filter_simps enumerate_simps)
  from integer formula accepted example show ?thesis by blast
qed

theorem normalize_clamps_index_witness:
  "\<forall>ns now.
     normalizeQuestion ns now (JObj [(js ''question'', JStr (js ''Q1'')),
         (js ''options'', JArr [JStr (js ''A''), JStr (js ''B'')]),
         (js ''correctIndex'', JNum (Fin 5))]) 0 (js ''battle'')
       = Inr (Some \<lparr> id_q = js ''battle-'' @ showInt now @ js ''-0'',
          text_q = js ''Q1'', options = [js ''A'', js ''B''], correctIndex = Fin 1,
          explanation = js ''No explanation provided.'' \<rparr>) \<and>
     resolveCorrectIdx (JObj [(js ''question'', JStr (js ''Q1'')),
         (js ''options'', JArr [JStr (js ''A''), JStr (js ''B'')]),
         (js ''correctIndex'', JNum (Fin 5))]) = Fin (of_int 5) \<and>
     int (length [js ''A'', js ''B'']) - 1 < 5 \<and>
     numGeq (Fin 5) (Fin (of_nat (length [js ''A'', js ''B'']))) \<and>
     truthy (questionTextOf (JObj [(js ''question'', JStr (js ''Q1'')),
         (js ''options'', JArr [JStr (js ''A''), JStr (js ''B'')]),
         (js ''correctIndex'', JNum (Fin 5))])) \<and>
     isArray (optionsListOf (JObj [(js ''question'', JStr (js ''Q1'')),
         (js ''options'', JArr [JStr (js ''A''), JStr (js ''B'')]),
         (js ''correctIndex'', JNum (Fin 5))])) \<and>
     normalizeQuestion ns now (JObj [(js ''question'', JStr (js ''Q1'')),
         (js ''options'', JArr [JStr (js ''A''), JStr (js ''B'')]),
         (js ''correctIndex'', JNum (Fin 5))]) 0 (js ''battle'') \<noteq> Inr None \<and>
     (\<exists>j. Fin 1 = Fin (of_int j) \<and> 0 \<le> j \<and> j \<le> int (length [js ''A'', js ''B'']) - 1)"
proof (intro allI)
  fix ns now
  let ?q = "JObj [(js ''question'', JStr (js ''Q1'')),
         (js ''options'', JArr [JStr (js ''A''), JStr (js ''B'')]),
         (js ''correctIndex'', JNum (Fin 5))]"
  let ?r = "\<lparr> id_q = js ''battle-'' @ showInt now @ js ''-0'',
          text_q = js ''Q1'', options = [js ''A'', js ''B''], correctIndex = Fin 1,
          explanation = js ''No explanation provided.'' \<rparr>"
  have n: "normalizeQuestion ns now ?q 0 (js ''battle'') = Inr (Some ?r)"
    by (simp add: norm_eval showNat_0 cong: weak_congs)
  have i: "resolveCorrectIdx ?q = Fin (of_int 5)" by (simp add: norm_eval)
  have o: "int (length [js ''A'', js ''B'']) - 1 < 5" by simp
  have g: "numGeq (Fin 5) (Fin (of_nat (length [js ''A'', js ''B''])))"
    by (simp add: numGeq_def)
  have t: "truthy (questionTextOf ?q)" by (simp add: norm_eval)
  have a: "isArray (optionsListOf ?q)" by (simp add: norm_eval)
  have l: "2 \<le> length (elements (optionsListOf ?q))" by (simp add: norm_eval)
  note w = normalize_clamps_index [of ns now ?q 0 "js ''battle''" ?r 5]
  from w t a l
  have x: "normalizeQuestion ns now ?q 0 (js ''battle'') \<noteq> Inr None" by blast
  from w n i
  have "\<exists>j. correctIndex ?r = Fin (of_int j) \<and> 0 \<le> j \<and> j \<le> int (length (options ?r)) - 1"
    by blast
  then have j: "\<exists>j. Fin 1 = Fin (of_int j) \<and> 0 \<le> j \<and> j \<le> int (length [js ''A'', js ''B'']) - 1"
    by simp
  from n i o g t a x j
  show "normalizeQuestion ns now ?q 0 (js ''battle'') = Inr (Some ?r) \<and>
     resolveCorrectIdx ?q = Fin (of_int 5) \<and>
     int (length [js ''A'', js ''B'']) - 1 < 5 \<and>
     numGeq (Fin 5) (Fin (of_nat (length [js ''A'', js ''B'']))) \<and>
     truthy (questionTextOf ?q) \<and> isArray (optionsListOf ?q) \<and>
     normalizeQuestion ns now ?q 0 (js ''battle'') \<noteq> Inr None \<and>
     (\<exists>j. Fin 1 = Fin (of_int j) \<and> 0 \<le> j \<and> j \<le> int (length [js ''A'', js ''B'']) - 1)"
    by blast
qed

text \<open>
  Claim C8: when \<^verbatim>\<open>correctIndex\<close> is a string, the resolved index is what \<^verbatim>\<open>parseInt\<close>
  reads from it, and 0 when \<^verbatim>\<open>parseInt\<close> gives \<^verbatim>\<open>NaN\<close>. For the decimal numeral of \<open>n\<close>
  that is the Number value of \<open>n\<close>, which is \<open>n\<close> itself below \<open>2 ^ 53\<close>; every string
  without a decimal digit gives 0. For an accepted candidate the question carries that
  index when it is in range, and 0 in the second case.
\<close>

theorem index_from_string:
  assumes "getProp q (js ''correctIndex'') = Some (JStr s)"
  shows "resolveCorrectIdx q = (case parseInt s of None \<Rightarrow> Fin 0 | Some v \<Rightarrow> v) \<and>
         (s = showNat n \<longrightarrow> resolveCorrectIdx q = toNumber (of_nat n)) \<and>
         (s = showNat n \<and> n < 2 ^ 53 \<longrightarrow> resolveCorrectIdx q = Fin (of_nat n)) \<and>
         (parseInt s = None \<longrightarrow> resolveCorrectIdx q = Fin 0) \<and>
         ((\<forall>c\<in>set s. \<not> isDigit c) \<longrightarrow> resolveCorrectIdx q = Fin 0) \<and>
         (normalizeQuestion ns now q index prefix = Inr (Some r) \<and> s = showNat n \<and>
            n < 2 ^ 53 \<and> n < length (options r) \<longrightarrow> correctIndex r = Fin (of_nat n)) \<and>
         (normalizeQuestion ns now q index prefix = Inr (Some r) \<and> parseInt s = None
            \<longrightarrow> correctIndex r = Fin 0)"
proof -
  note rs = resolve_string [OF assms]
  have a: "resolveCorrectIdx q = toNumber (of_nat n)" if "s = showNat n"
    using rs that by (simp add: parseInt_showNat)
  have b: "resolveCorrectIdx q = Fin (of_nat n)" if "s = showNat n" "n < 2 ^ 53"
    using a [OF that(1)] toNumber_of_nat [OF that(2)] by simp
  have c: "resolveCorrectIdx q = Fin 0" if "parseInt s = None"
    using rs that by simp
  have d: "resolveCorrectIdx q = Fin 0" if "\<forall>c\<in>set s. \<not> isDigit c"
    using c parseInt_no_digit [OF that] by simp
  have e: "correctIndex r = Fin (of_nat n)"
    if h: "normalizeQuestion ns now q index prefix = Inr (Some r)" "s = showNat n"
      "n < 2 ^ 53" "n < length (options r)"
  proof -
    from normalizeQuestion_SomeD [OF h(1)]
    have i: "correctIndex r = clampIdx (resolveCorrectIdx q) (length (options r))"
      by simp
    from b [OF h(2) h(3)] i h(4) show ?thesis
      by (simp add: clampIdx_def numGeq_def)
  qed
  have f: "correctIndex r = Fin 0"
    if h: "normalizeQuestion ns now q index prefix = Inr (Some r)" "parseInt s = None"
  proof -
    from normalizeQuestion_SomeD [OF h(1)]
    have l: "2 \<le> length (options r)"
      and i: "correctIndex r = clampIdx (resolveCorrectIdx q) (length (options r))"
      by simp_all
    have "0 < length (options r)" by (rule less_le_trans [OF _ l]) simp
    with c [OF h(2)] i show ?thesis
      by (simp add: clampIdx_def numGeq_def)
  qed
  from rs a b c d e f show ?thesis by blast
qed

theorem index_from_string_witness:
  "\<forall>ns now.
     getProp (JObj [(js ''question'', JStr (js ''Q'')),
        (js ''options'', JArr [JStr (js ''A''), JStr (js ''B''), JStr (js ''C''), JStr (js ''D'')]),
        (js ''correctIndex'', JStr (js ''2''))]) (js ''correctIndex'') = Some (JStr (js ''2'')) \<and>
     js ''2'' = showNat 2 \<and>
     resolveCorrectIdx (JObj [(js ''question'', JStr (js ''Q'')),
        (js ''options'', JArr [JStr (js ''A''), JStr (js ''B''), JStr (js ''C''), JStr (js ''D'')]),
        (js ''correctIndex'', JStr (js ''2''))]) = Fin 2 \<and>
     normalizeQuestion ns now (JObj [(js ''question'', JStr (js ''Q'')),
        (js ''options'', JArr [JStr (js ''A''), JStr (js ''B''), JStr (js ''C''), JStr (js ''D'')]),
        (js ''correctIndex'', JStr (js ''2''))]) 0 (js ''battle'')
       = Inr (Some \<lparr> id_q = js ''battle-'' @ showInt now @ js ''-0'', text_q = js ''Q'',
           options = [js ''A'', js ''B'', js ''C'', js ''D''], correctIndex = Fin 2,
           explanation = js ''No explanation provided.'' \<rparr>) \<and>
     getProp (JObj [(js ''question'', JStr (js ''Q'')),
        (js ''options'', JArr [JStr (js ''A''), JStr (js ''B'')]),
        (js ''correctIndex'', JStr (js ''two''))]) (js ''correctIndex'') = Some (JStr (js ''two'')) \<and>
     parseInt (js ''two'') = None \<and>
     resolveCorrectIdx (JObj [(js ''question'', JStr (js ''Q'')),
        (js ''options'', JArr [JStr (js ''A''), JStr (js ''B'')]),
        (js ''correctIndex'', JStr (js ''two''))]) = Fin 0"
proof (intro allI)
  fix ns now
  let ?q = "JObj [(js ''question'', JStr (js ''Q'')),
        (js ''options'', JArr [JStr (js ''A''), JStr (js ''B''), JStr (js ''C''), JStr (js ''D'')]),
        (js ''correctIndex'', JStr (js ''2''))]"
  let ?p = "JObj [(js ''question'', JStr (js ''Q'')),
        (js ''options'', JArr [JStr (js ''A''), JStr (js ''B'')]),
        (js ''correctIndex'', JStr (js ''two''))]"
  let ?r = "\<lparr> id_q = js ''battle-'' @ showInt now @ js ''-0'', text_q = js ''Q'',
           options = [js ''A'', js ''B'', js ''C'', js ''D''], correctIndex = Fin 2,
           explanation = js ''No explanation provided.'' \<rparr>"
  have 1: "getProp ?q (js ''correctIndex'') = Some (JStr (js ''2''))"
    by (simp add: getProp_def js_Nil js_Cons)
  have 2: "js ''2'' = showNat 2" by (simp add: showNat_2)
  have 3: "(2::nat) < 2 ^ 53" by simp
  from index_from_string [OF 1, of 2 ns now 0 "js ''battle''" ?r] 2 3
  have "resolveCorrectIdx ?q = Fin (of_nat 2)" by blast
  then have i: "resolveCorrectIdx ?q = Fin 2" by simp
  have n: "normalizeQuestion ns now ?q 0 (js ''battle'') = Inr (Some ?r)"
    unfolding normalizeQuestion_def i
    by (simp add: questionTextOf_def optionsListOf_def explanationOf_def getProp_def jsOr_def
        processText_def String_def clampIdx_def numGeq_def markup_eval showNat_0 cong: weak_congs)
  have 4: "getProp ?p (js ''correctIndex'') = Some (JStr (js ''two''))"
    by (simp add: getProp_def js_Nil js_Cons)
  have 5: "\<forall>c\<in>set (js ''two''). \<not> isDigit c"
    by (simp add: js_Nil js_Cons isDigit_def)
  have 6: "parseInt (js ''two'') = None" using 5 by (rule parseInt_no_digit)
  from index_from_string [OF 4, of 0 ns now 0 "js ''battle''" ?r] 6
  have j: "resolveCorrectIdx ?p = Fin 0" by blast
  from 1 2 i n 4 6 j
  show "getProp ?q (js ''correctIndex'') = Some (JStr (js ''2'')) \<and>
     js ''2'' = showNat 2 \<and> resolveCorrectIdx ?q = Fin 2 \<and>
     normalizeQuestion ns now ?q 0 (js ''battle'') = Inr (Some ?r) \<and>
     getProp ?p (js ''correctIndex'') = Some (JStr (js ''two'')) \<and>
     parseInt (js ''two'') = None \<and> resolveCorrectIdx ?p = Fin 0"
    by blast
qed

text \<open>
  Claim C9: two items normalized at distinct positions get distinct identifiers, whatever
  the two time stamps and the prefix are, since an identifier ends with a hyphen and the
  decimal digits of the position. Hence the identifiers of the questions that either
  generation function returns are pairwise distinct.
\<close>

theorem ids_unique_in_batch:
  "(i \<noteq> j \<and> normalizeQuestion ns t1 q1 i prefix = Inr (Some r1) \<and>
      normalizeQuestion ns t2 q2 j prefix = Inr (Some r2) \<longrightarrow> id_q r1 \<noteq> id_q r2) \<and>
   distinct (map id_q (generateBattleQuestions ns clock response)) \<and>
   distinct (map id_q (generatePracticeQuestions ns clock response))"
proof (intro conjI impI)
  assume a: "i \<noteq> j \<and> normalizeQuestion ns t1 q1 i prefix = Inr (Some r1) \<and>
      normalizeQuestion ns t2 q2 j prefix = Inr (Some r2)"
  show "id_q r1 \<noteq> id_q r2"
  proof
    assume "id_q r1 = id_q r2"
    moreover from a have "id_q r1 = (prefix @ [45] @ showInt t1) @ [45] @ showNat i"
      by (intro normalized_id) blast
    moreover from a have "id_q r2 = (prefix @ [45] @ showInt t2) @ [45] @ showNat j"
      by (intro normalized_id) blast
    ultimately have "(prefix @ [45] @ showInt t1) @ [45] @ showNat i
        = (prefix @ [45] @ showInt t2) @ [45] @ showNat j"
      by simp
    then have "i = j" by (rule ids_differ)
    with a show False by simp
  qed
next
  show "distinct (map id_q (generateBattleQuestions ns clock response))"
    by (cases response) (simp_all add: generateBattleQuestions_def batch_distinct)
next
  show "distinct (map id_q (generatePracticeQuestions ns clock response))"
    by (cases response) (simp_all add: generatePracticeQuestions_def batch_distinct)
qed

theorem ids_unique_in_batch_witness:
  "\<forall>ns.
     (0::nat) \<noteq> 1 \<and>
     normalizeQuestion ns 1700000000000 (JObj [(js ''question'', JStr (js ''Q1'')),
         (js ''options'', JArr [JStr (js ''A''), JStr (js ''B'')])]) 0 (js ''battle'')
       = Inr (Some \<lparr> id_q = js ''battle-'' @ showInt 1700000000000 @ js ''-0'',
          text_q = js ''Q1'', options = [js ''A'', js ''B''], correctIndex = Fin 0,
          explanation = js ''No explanation provided.'' \<rparr>) \<and>
     normalizeQuestion ns 1700000000000 (JObj [(js ''question'', JStr (js ''Q2'')),
         (js ''options'', JArr [JStr (js ''C''), JStr (js ''D'')])]) 1 (js ''battle'')
       = Inr (Some \<lparr> id_q = js ''battle-'' @ showInt 1700000000000 @ js ''-1'',
          text_q = js ''Q2'', options = [js ''C'', js ''D''], correctIndex = Fin 0,
          explanation = js ''No explanation provided.'' \<rparr>) \<and>
     js ''battle-'' @ showInt 1700000000000 @ js ''-0''
       \<noteq> js ''battle-'' @ showInt 1700000000000 @ js ''-1''"
proof (intro allI)
  fix ns
  let ?q1 = "JObj [(js ''question'', JStr (js ''Q1'')),
         (js ''options'', JArr [JStr (js ''A''), JStr (js ''B'')])]"
  let ?q2 = "JObj [(js ''question'', JStr (js ''Q2'')),
         (js ''options'', JArr [JStr (js ''C''), JStr (js ''D'')])]"
  let ?r1 = "\<lparr> id_q = js ''battle-'' @ showInt 1700000000000 @ js ''-0'',
          text_q = js ''Q1'', options = [js ''A'', js ''B''], correctIndex = Fin 0,
          explanation = js ''No explanation provided.'' \<rparr>"
  let ?r2 = "\<lparr> id_q = js ''battle-'' @ showInt 1700000000000 @ js ''-1'',
          text_q = js ''Q2'', options = [js ''C'', js ''D''], correctIndex = Fin 0,
          explanation = js ''No explanation provided.'' \<rparr>"
  have 1: "normalizeQuestion ns 1700000000000 ?q1 0 (js ''battle'') = Inr (Some ?r1)"
    by (simp add: norm_eval showNat_0 cong: weak_congs)
  have 2: "normalizeQuestion ns 1700000000000 ?q2 1 (js ''battle'') = Inr (Some ?r2)"
    by (simp add: norm_eval showNat_1 cong: weak_congs)
  have 3: "(0::nat) \<noteq> 1" by simp
  from ids_unique_in_batch [of 0 1 ns 1700000000000 ?q1 "js ''battle''" ?r1 1700000000000 ?q2 ?r2]
    1 2 3
  have "id_q ?r1 \<noteq> id_q ?r2" by blast
  then have "js ''battle-'' @ showInt 1700000000000 @ js ''-0''
       \<noteq> js ''battle-'' @ showInt 1700000000000 @ js ''-1''"
    by simp
  with 1 2 3
  show "(0::nat) \<noteq> 1 \<and>
     normalizeQuestion ns 1700000000000 ?q1 0 (js ''battle'') = Inr (Some ?r1) \<and>
     normalizeQuestion ns 1700000000000 ?q2 1 (js ''battle'') = Inr (Some ?r2) \<and>
     js ''battle-'' @ showInt 1700000000000 @ js ''-0''
       \<noteq> js ''battle-'' @ showInt 1700000000000 @ js ''-1''"
    by blast
qed

end
